theory Spec2Isabelle
  imports Complex_Main
begin

section \<open>Values, failures and loops\<close>

text \<open>
  The package computes on \<^verbatim>\<open>float64\<close>. The model reads a \<^verbatim>\<open>float64\<close> as a real number:
  rounding, infinities and NaN are not represented, \<open>x / 0\<close> is HOL's \<open>0\<close> and
  \<open>sqrt\<close> of a negative number is HOL's. The results below that say that a call panics,
  or which entries of a container are written, do not depend on the arithmetic.

  A Go call ends by returning or by panicking. A panic carries an error value, a string or
  a run-time error; the run-time's report of a main goroutine blocked for ever on a channel
  is kept with the panics.
\<close>

datatype error =
    DimensionError | LabelError
  | ErrSingular | ErrShape | ErrRowAccess | ErrColAccess | ErrIndexOutOfRange
  | SingularMatrixError | RankDeficiencyError | InsufficientDataError | NonConvergenceError

text \<open>
  \<open>DimensionError\<close> and \<open>LabelError\<close> are the package's own (df.go); the \<open>Err\<close> values
  are those of the matrix library. The last four are the names of the specification's
  error taxonomy: no statement of the sources constructs them.
\<close>

datatype panic =
    PanicError error
  | PanicString string
  | IndexOutOfRange
  | MakeSliceLen
  | Deadlock

text \<open>
  \<^verbatim>\<open>for i := 0; i < n; i++ { body }\<close> and \<^verbatim>\<open>for _, i := range is { body }\<close> over a state,
  stopping at the first panic. \<open>for_each\<close> is for a body whose state is local to the
  function; \<open>for_each_st\<close> keeps the state a panic leaves behind, for a body that writes
  what the caller can see.
\<close>

primrec for_each :: "'i list \<Rightarrow> ('i \<Rightarrow> 's \<Rightarrow> panic + 's) \<Rightarrow> 's \<Rightarrow> panic + 's" where
  "for_each [] body s = Inr s"
| "for_each (i # is) body s =
     (case body i s of Inl e \<Rightarrow> Inl e | Inr s' \<Rightarrow> for_each is body s')"

primrec for_each_st ::
  "'i list \<Rightarrow> ('i \<Rightarrow> 's \<Rightarrow> panic option \<times> 's) \<Rightarrow> 's \<Rightarrow> panic option \<times> 's" where
  "for_each_st [] body s = (None, s)"
| "for_each_st (i # is) body s =
     (case body i s of (Some e, s') \<Rightarrow> (Some e, s') | (None, s') \<Rightarrow> for_each_st is body s')"

text \<open>\<^verbatim>\<open>make([]float64, n)\<close>, reading a slice at an index and storing at an index.\<close>

definition make_slice :: "int \<Rightarrow> panic + real list" where
  "make_slice n = (if n < 0 then Inl MakeSliceLen else Inr (replicate (nat n) 0))"

definition index :: "real list \<Rightarrow> nat \<Rightarrow> panic + real" where
  "index xs i = (if i < length xs then Inr (xs ! i) else Inl IndexOutOfRange)"

definition store :: "real list \<Rightarrow> nat \<Rightarrow> real \<Rightarrow> panic + real list" where
  "store xs i v = (if i < length xs then Inr (xs[i := v]) else Inl IndexOutOfRange)"

section \<open>The dense matrix of the matrix library\<close>

text \<open>
  \<^verbatim>\<open>mat64.Dense\<close> is not part of the package. It is modelled by its documented behaviour:
  a matrix knows its dimensions, the accessors check their indices and panic outside the
  matrix, \<^verbatim>\<open>Col\<close> and \<^verbatim>\<open>SetCol\<close> copy \<open>min (len v) rows\<close> entries, and a product
  panics with \<open>ErrShape\<close> when the inner dimensions differ or when a receiver that already
  has a shape has the wrong one. The entries are kept as the list of the rows.
\<close>

record Dense =
  Rows :: nat
  Cols :: nat
  Data :: "real list list"

definition NewDense :: "nat \<Rightarrow> nat \<Rightarrow> Dense" where
  "NewDense r c = \<lparr>Rows = r, Cols = c, Data = replicate r (replicate c 0)\<rparr>"

definition At :: "Dense \<Rightarrow> nat \<Rightarrow> nat \<Rightarrow> panic + real" where
  "At m r c =
     (if Rows m \<le> r then Inl (PanicError ErrRowAccess)
      else if Cols m \<le> c then Inl (PanicError ErrColAccess)
      else Inr (Data m ! r ! c))"

definition Set_At :: "Dense \<Rightarrow> nat \<Rightarrow> nat \<Rightarrow> real \<Rightarrow> panic + Dense" where
  "Set_At m r c v =
     (if Rows m \<le> r then Inl (PanicError ErrRowAccess)
      else if Cols m \<le> c then Inl (PanicError ErrColAccess)
      else Inr (m\<lparr>Data := (Data m)[r := (Data m ! r)[c := v]]\<rparr>))"

text \<open>\<^verbatim>\<open>m.Col(nil, j)\<close>: a fresh slice holding column \<open>j\<close>.\<close>

definition column :: "Dense \<Rightarrow> nat \<Rightarrow> real list" where
  "column m j = map (\<lambda>row. row ! j) (Data m)"

definition Col :: "Dense \<Rightarrow> int \<Rightarrow> panic + real list" where
  "Col m j =
     (if int (Cols m) \<le> j \<or> j < 0 then Inl (PanicError ErrIndexOutOfRange)
      else Inr (column m (nat j)))"

text \<open>
  \<^verbatim>\<open>m.Col(buf, j)\<close> with a buffer: the first \<open>min (len buf) rows\<close> entries of \<open>buf\<close> are
  overwritten with the column; the value is the buffer after the call.
\<close>

definition Col_into :: "real list \<Rightarrow> Dense \<Rightarrow> int \<Rightarrow> panic + real list" where
  "Col_into buf m j =
     (if int (Cols m) \<le> j \<or> j < 0 then Inl (PanicError ErrIndexOutOfRange)
      else let k = min (length buf) (Rows m)
           in Inr (take k (column m (nat j)) @ drop k buf))"

text \<open>\<^verbatim>\<open>m.SetCol(j, v)\<close>: the first \<open>min (len v) rows\<close> entries of column \<open>j\<close> become those of \<open>v\<close>.\<close>

definition set_column :: "nat \<Rightarrow> real list \<Rightarrow> real list list \<Rightarrow> real list list" where
  "set_column j v rws =
     map (\<lambda>(row, x). row[j := x]) (zip (take (length v) rws) v) @ drop (length v) rws"

definition SetCol :: "Dense \<Rightarrow> int \<Rightarrow> real list \<Rightarrow> panic + Dense" where
  "SetCol m j v =
     (if int (Cols m) \<le> j \<or> j < 0 then Inl (PanicError ErrIndexOutOfRange)
      else Inr (m\<lparr>Data := set_column (nat j) (take (Rows m) v) (Data m)\<rparr>))"

text \<open>
  \<^verbatim>\<open>recv.MulTrans(a, aTrans, b, bTrans)\<close>. \<open>recv\<close> is the shape the receiver has when it
  is neither empty nor one of the operands, \<open>None\<close> otherwise (the library then
  allocates the result). \<^verbatim>\<open>recv.Mul(a, b)\<close> is the product with no transposition.
\<close>

definition dims_T :: "Dense \<Rightarrow> bool \<Rightarrow> nat \<times> nat" where
  "dims_T a t = (if t then (Cols a, Rows a) else (Rows a, Cols a))"

definition at_T :: "Dense \<Rightarrow> bool \<Rightarrow> nat \<Rightarrow> nat \<Rightarrow> real" where
  "at_T a t i j = (if t then Data a ! j ! i else Data a ! i ! j)"

definition product :: "Dense \<Rightarrow> bool \<Rightarrow> Dense \<Rightarrow> bool \<Rightarrow> Dense" where
  "product a aTrans b bTrans =
     \<lparr>Rows = fst (dims_T a aTrans), Cols = snd (dims_T b bTrans),
      Data = map (\<lambda>i. map (\<lambda>j. sum_list (map (\<lambda>k. at_T a aTrans i k * at_T b bTrans k j)
                                             [0..<snd (dims_T a aTrans)]))
                         [0..<snd (dims_T b bTrans)])
                 [0..<fst (dims_T a aTrans)]\<rparr>"

definition MulTrans ::
  "(nat \<times> nat) option \<Rightarrow> Dense \<Rightarrow> bool \<Rightarrow> Dense \<Rightarrow> bool \<Rightarrow> panic + Dense" where
  "MulTrans recv a aTrans b bTrans =
     (if snd (dims_T a aTrans) \<noteq> fst (dims_T b bTrans) then Inl (PanicError ErrShape)
      else case recv of
             None \<Rightarrow> Inr (product a aTrans b bTrans)
           | Some (r, c) \<Rightarrow>
               if r = 0 \<or> c = 0 then Inr (product a aTrans b bTrans)
               else if fst (dims_T a aTrans) = r \<and> snd (dims_T b bTrans) = c
                    then Inr (product a aTrans b bTrans)
               else Inl (PanicError ErrShape))"

definition Mul :: "(nat \<times> nat) option \<Rightarrow> Dense \<Rightarrow> Dense \<Rightarrow> panic + Dense" where
  "Mul recv a b = MulTrans recv a False b False"

section \<open>The data frame and the least-squares model\<close>

text \<open>
  \<^verbatim>\<open>DataFrame\<close> is df.go's struct. Its constructor sets \<open>rows\<close> and \<open>cols\<close> from lengths,
  so they are natural numbers here.
\<close>

record DataFrame =
  df_data :: Dense
  df_cols :: nat
  df_rows :: nat
  df_labels :: "string list"

text \<open>
  The struct \<^verbatim>\<open>OLS\<close> is declared in a file of the package that is not among the sources.
  The record has the fields that the diagnostics read and write: \<^verbatim>\<open>o.x\<close>, \<^verbatim>\<open>o.n\<close>,
  \<^verbatim>\<open>o.p\<close>, \<^verbatim>\<open>o.residuals\<close>, \<^verbatim>\<open>o.fitted\<close> and \<^verbatim>\<open>o.hat\<close>. \<^verbatim>\<open>o.p\<close> is a
  number of columns; \<^verbatim>\<open>o.n\<close> is an integer because \<^verbatim>\<open>DFFITS\<close> decrements it.
\<close>

record OLS =
  o_x :: DataFrame
  o_n :: int
  o_p :: nat
  o_residuals :: "real list"
  o_fitted :: "real list"
  o_hat :: "Dense option"

text \<open>
  What the diagnostics call and the sources do not hold is a parameter of the model: the
  two factors of \<^verbatim>\<open>mat64.QR\<close>, \<^verbatim>\<open>mat64.Inverse\<close>, the methods \<^verbatim>\<open>Train\<close>,
  \<^verbatim>\<open>MeanSquaredError\<close> and \<^verbatim>\<open>RSquared\<close> of \<^verbatim>\<open>OLS\<close>, and \<^verbatim>\<open>Rep\<close> of the package's
  \<^verbatim>\<open>util\<close>. \<^verbatim>\<open>Train\<close> returns its \<^verbatim>\<open>error\<close> and the model it leaves.
\<close>

record env =
  QR_Q :: "Dense \<Rightarrow> panic + Dense"
  QR_R :: "Dense \<Rightarrow> panic + Dense"
  Inverse :: "Dense \<Rightarrow> error + Dense"
  OLS_Train :: "OLS \<Rightarrow> real list \<Rightarrow> error option \<times> OLS"
  MeanSquaredError :: "OLS \<Rightarrow> real"
  RSquared :: "OLS \<Rightarrow> real"
  Rep :: "real \<Rightarrow> int \<Rightarrow> real list"

text \<open>
  A refit is taken to leave the dimensions \<^verbatim>\<open>o.n\<close> and \<^verbatim>\<open>o.p\<close> of the model as they are.
\<close>

definition train :: "env \<Rightarrow> OLS \<Rightarrow> real list \<Rightarrow> error option \<times> OLS" where
  "train E ols y =
     (case OLS_Train E ols y of (err, ols') \<Rightarrow> (err, ols'\<lparr>o_n := o_n ols, o_p := o_p ols\<rparr>))"

definition NCPU :: nat where
  "NCPU = 4"

text \<open>
  \<^verbatim>\<open>CooksDistance\<close> starts one goroutine for each observation and then receives \<open>NCPU\<close>
  times from the channel the goroutines send to. Its model runs the goroutines in the
  order of their indices, each to its send before the next one starts, which is one of the
  schedules of the program; the others are not modelled. On that schedule the loop variable
  \<^verbatim>\<open>i\<close>, which the closure reads in place of its parameter \<^verbatim>\<open>idx\<close>, still holds the index
  the goroutine was started with. Fewer than \<open>NCPU\<close> goroutines
  leave the receiving loop blocked for ever, on every schedule: that is the outcome
  \<open>Deadlock\<close>.
\<close>

subsection \<open>LeveragePoints\<close>

text \<open>
  The body of the loop that fills \<^verbatim>\<open>trans\<close>: the store of \<open>1.0\<close> is guarded, the store of
  \<open>0.0\<close> that follows it is not.
\<close>

definition trans_body :: "nat \<Rightarrow> nat \<Rightarrow> nat \<Rightarrow> Dense \<Rightarrow> panic + Dense" where
  "trans_body p i j t =
     (case (if i = j \<and> i < p then Set_At t i j 1 else Inr t) of
        Inl e \<Rightarrow> Inl e
      | Inr t' \<Rightarrow> Set_At t' i j 0)"

definition diag_body :: "Dense \<Rightarrow> nat \<Rightarrow> nat \<Rightarrow> real list \<Rightarrow> panic + real list" where
  "diag_body H i j diag =
     (if j = i then (case At H i j of Inl e \<Rightarrow> Inl e | Inr v \<Rightarrow> store diag i v)
      else Inr diag)"

definition LeveragePoints :: "env \<Rightarrow> OLS \<Rightarrow> (panic + real list) \<times> OLS" where
  "LeveragePoints E ols =
     (case QR_Q E (df_data (o_x ols)) of
        Inl e \<Rightarrow> (Inl e, ols)
      | Inr q \<Rightarrow>
          (case for_each [0..<Rows q] (\<lambda>i. for_each [0..<Rows q] (trans_body (Cols q) i))
                  (NewDense (Rows q) (Cols q)) of
             Inl e \<Rightarrow> (Inl e, ols)
           | Inr tr \<Rightarrow>
               (case Mul None q tr of
                  Inl e \<Rightarrow> (Inl e, ols)
                | Inr H1 \<Rightarrow>
                    (case MulTrans None H1 False q True of
                       Inl e \<Rightarrow> (Inl e, ols)
                     | Inr H \<Rightarrow>
                         (case for_each [0..<Rows q] (\<lambda>i. for_each [0..<Rows q] (diag_body H i))
                                 (replicate (Rows q) 0) of
                            Inl e \<Rightarrow> (Inl e, ols\<lparr>o_hat := Some H\<rparr>)
                          | Inr diag \<Rightarrow> (Inr diag, ols\<lparr>o_hat := Some H\<rparr>))))))"

subsection \<open>CooksDistance\<close>

definition cooks_body :: "OLS \<Rightarrow> real list \<Rightarrow> real \<Rightarrow> nat \<Rightarrow> real list \<Rightarrow> panic + real list" where
  "cooks_body ols h mse i dists =
     (case index (o_residuals ols) i of
        Inl e \<Rightarrow> Inl e
      | Inr r \<Rightarrow>
          (case index h i of
             Inl e \<Rightarrow> Inl e
           | Inr hi \<Rightarrow> store dists i ((r\<^sup>2 / (real (o_p ols) * mse)) * (hi / (1 - hi)\<^sup>2))))"

definition CooksDistance :: "env \<Rightarrow> OLS \<Rightarrow> (panic + real list) \<times> OLS" where
  "CooksDistance E ols =
     (case LeveragePoints E ols of
        (Inl e, ols1) \<Rightarrow> (Inl e, ols1)
      | (Inr h, ols1) \<Rightarrow>
          (case make_slice (o_n ols1) of
             Inl e \<Rightarrow> (Inl e, ols1)
           | Inr dists0 \<Rightarrow>
               (case for_each [0..<nat (o_n ols1)]
                       (cooks_body ols1 h (MeanSquaredError E ols1)) dists0 of
                  Inl e \<Rightarrow> (Inl e, ols1)
                | Inr dists \<Rightarrow>
                    if nat (o_n ols1) < NCPU then (Inl Deadlock, ols1) else (Inr dists, ols1))))"

subsection \<open>PRESS\<close>

definition press_body :: "OLS \<Rightarrow> real list \<Rightarrow> nat \<Rightarrow> real list \<Rightarrow> panic + real list" where
  "press_body ols h_diag i press =
     (case index (o_residuals ols) i of
        Inl e \<Rightarrow> Inl e
      | Inr r \<Rightarrow>
          (case index h_diag i of
             Inl e \<Rightarrow> Inl e
           | Inr h \<Rightarrow> store press i (r / (1 - h))))"

definition PRESS :: "env \<Rightarrow> OLS \<Rightarrow> (panic + real list) \<times> OLS" where
  "PRESS E ols =
     (case make_slice (o_n ols) of
        Inl e \<Rightarrow> (Inl e, ols)
      | Inr press0 \<Rightarrow>
          (case LeveragePoints E ols of
             (Inl e, ols1) \<Rightarrow> (Inl e, ols1)
           | (Inr h_diag, ols1) \<Rightarrow>
               (case for_each [0..<nat (o_n ols1)] (press_body ols1 h_diag) press0 of
                  Inl e \<Rightarrow> (Inl e, ols1)
                | Inr press \<Rightarrow> (Inr press, ols1))))"

subsection \<open>VarianceCovarianceMatrix\<close>

text \<open>The method writes no field of the model, so its value is its outcome alone.\<close>

definition raug_body :: "Dense \<Rightarrow> nat \<Rightarrow> nat \<Rightarrow> Dense \<Rightarrow> panic + Dense" where
  "raug_body R i j Raug = (case At R i j of Inl e \<Rightarrow> Inl e | Inr v \<Rightarrow> Set_At Raug i j v)"

definition Raug_of :: "Dense \<Rightarrow> nat \<Rightarrow> panic + Dense" where
  "Raug_of R p = for_each [0..<p] (\<lambda>i. for_each [0..<p] (raug_body R i)) (NewDense p p)"

definition VarianceCovarianceMatrix :: "env \<Rightarrow> OLS \<Rightarrow> panic + Dense" where
  "VarianceCovarianceMatrix E ols =
     (case QR_R E (df_data (o_x ols)) of
        Inl e \<Rightarrow> Inl e
      | Inr R \<Rightarrow>
          (case Raug_of R (o_p ols) of
             Inl e \<Rightarrow> Inl e
           | Inr Raug \<Rightarrow>
               (case Inverse E Raug of
                  Inl err \<Rightarrow> Inl (PanicString ''R matrix is not invertible'')
                | Inr Rinverse \<Rightarrow>
                    MulTrans (Some (o_p ols, o_p ols)) Rinverse False Rinverse True)))"

subsection \<open>VarianceInflationFactors\<close>

text \<open>
  \<^verbatim>\<open>orig\<close> is a copy of the matrix, so the writes of the loop, which go through
  \<^verbatim>\<open>o.x.data\<close>, do not reach it: it is the value of the matrix at the call.
\<close>

definition vif_body :: "env \<Rightarrow> nat \<Rightarrow> real list \<times> OLS \<Rightarrow> panic option \<times> (real list \<times> OLS)" where
  "vif_body E idx st =
     (case st of (vifs, ols) \<Rightarrow>
        (case Col (df_data (o_x ols)) (int idx) of
           Inl e \<Rightarrow> (Some e, st)
         | Inr col \<Rightarrow>
             (case SetCol (df_data (o_x ols)) (int idx) (Rep E 0 (o_n ols)) of
                Inl e \<Rightarrow> (Some e, st)
              | Inr x' \<Rightarrow>
                  (case train E (ols\<lparr>o_x := (o_x ols)\<lparr>df_data := x'\<rparr>\<rparr>) col of
                     (Some err, ols2) \<Rightarrow>
                       (Some (PanicString ''Error Occured calculating VIF''), (vifs, ols2))
                   | (None, ols2) \<Rightarrow>
                       (case store vifs idx (1 / (1 - RSquared E ols2)) of
                          Inl e \<Rightarrow> (Some e, (vifs, ols2))
                        | Inr vifs' \<Rightarrow> (None, (vifs', ols2)))))))"

definition VarianceInflationFactors :: "env \<Rightarrow> OLS \<Rightarrow> (panic + real list) \<times> OLS" where
  "VarianceInflationFactors E ols =
     (case for_each_st [0..<o_p ols] (vif_body E) (replicate (o_p ols) 0, ols) of
        (Some e, (vifs, ols')) \<Rightarrow> (Inl e, ols')
      | (None, (vifs, ols')) \<Rightarrow>
          (Inr vifs, ols'\<lparr>o_x := (o_x ols')\<lparr>df_data := df_data (o_x ols)\<rparr>\<rparr>))"

subsection \<open>DFFITS, up to its loop\<close>


section \<open>The data frame's Transform\<close>

text \<open>The closure \<^verbatim>\<open>fc\<close> overwrites every entry of the buffer with its image.\<close>

definition fc :: "(real \<Rightarrow> real) \<Rightarrow> real list \<Rightarrow> real list" where
  "fc f buf = fold (\<lambda>i b. b[i := f (b ! i)]) [0..<length buf] buf"

definition transform_body :: "(real \<Rightarrow> real) \<Rightarrow> int \<Rightarrow> DataFrame \<Rightarrow> panic option \<times> DataFrame" where
  "transform_body f col df =
     (case Col_into (replicate (df_rows df) 0) (df_data df) col of
        Inl e \<Rightarrow> (Some e, df)
      | Inr buf \<Rightarrow>
          (case SetCol (df_data df) col (fc f buf) of
             Inl e \<Rightarrow> (Some e, df)
           | Inr d \<Rightarrow> (None, df\<lparr>df_data := d\<rparr>)))"

definition Transform :: "(real \<Rightarrow> real) \<Rightarrow> int list \<Rightarrow> DataFrame \<Rightarrow> panic option \<times> DataFrame" where
  "Transform f cols df = for_each_st cols (transform_body f) df"

section \<open>Forward-stagewise fitting\<close>

text \<open>
  The lower-case helpers that forward_stagewise.go calls (\<^verbatim>\<open>standardize\<close>, \<^verbatim>\<open>rep\<close>,
  \<^verbatim>\<open>subtractMean\<close>, \<^verbatim>\<open>cor\<close>, \<^verbatim>\<open>max\<close>, \<^verbatim>\<open>sign\<close>, \<^verbatim>\<open>sum\<close>, \<^verbatim>\<open>prod\<close>, \<^verbatim>\<open>diff\<close>,
  \<^verbatim>\<open>multSlice\<close>) are declared in a file of the package that is not among the sources. They
  are parameters of the model, taken to return a value on every argument; the slice that
  \<^verbatim>\<open>rep\<close> returns is taken not to be \<^verbatim>\<open>nil\<close>.
\<close>

record helpers =
  h_standardize :: "real list \<Rightarrow> real list"
  h_rep :: "real \<Rightarrow> int \<Rightarrow> real list"
  h_subtractMean :: "real list \<Rightarrow> real list"
  h_cor :: "real list \<Rightarrow> real list \<Rightarrow> real"
  h_max :: "real list \<Rightarrow> real"
  h_sign :: "real \<Rightarrow> real"
  h_sum :: "real list \<Rightarrow> real"
  h_prod :: "real list \<Rightarrow> real list \<Rightarrow> real list"
  h_diff :: "real list \<Rightarrow> real list \<Rightarrow> real list"
  h_multSlice :: "real list \<Rightarrow> real \<Rightarrow> real list"

record ForwardStage =
  f_x :: DataFrame
  f_epsilon :: real
  f_delta :: real
  f_y :: "real list"
  f_betas :: "real list"
  f_p :: int
  f_firstRun :: bool

text \<open>
  \<^verbatim>\<open>mat64.NewDense(r, c, mat)\<close> with a slice that is not \<^verbatim>\<open>nil\<close>: the slice becomes the
  entries, row after row, and a slice of another length than \<open>r * c\<close> is refused.
\<close>

definition NewDense_of :: "nat \<Rightarrow> nat \<Rightarrow> real list \<Rightarrow> panic + Dense" where
  "NewDense_of r c mat =
     (if r * c = length mat
      then Inr \<lparr>Rows = r, Cols = c, Data = map (\<lambda>i. take c (drop (i * c) mat)) [0..<r]\<rparr>
      else Inl (PanicError ErrShape))"

text \<open>
  \<^verbatim>\<open>sort.SearchFloat64s(a, x)\<close> is \<^verbatim>\<open>sort.Search(len(a), func(i) { return a[i] >= x })\<close>:
  a binary search, whatever the order of \<open>a\<close>.
\<close>

function search :: "(nat \<Rightarrow> bool) \<Rightarrow> nat \<Rightarrow> nat \<Rightarrow> nat" where
  "search fn i j =
     (if i < j then (if \<not> fn ((i + j) div 2) then search fn ((i + j) div 2 + 1) j
                     else search fn i ((i + j) div 2))
      else i)"
  by pat_completeness auto
termination
  by (relation "measure (\<lambda>(fn, i, j). j - i)") auto

definition SearchFloat64s :: "real list \<Rightarrow> real \<Rightarrow> nat" where
  "SearchFloat64s a x = search (\<lambda>i. x \<le> a ! i) 0 (length a)"

subsection \<open>Standardize\<close>

definition standardize_body ::
  "helpers \<Rightarrow> nat \<Rightarrow> real list \<times> Dense \<Rightarrow> panic + (real list \<times> Dense)" where
  "standardize_body h i st =
     (case st of (col, d) \<Rightarrow>
        (case Col_into col d (int i) of
           Inl e \<Rightarrow> Inl e
         | Inr col' \<Rightarrow>
             (case SetCol d (int i) (h_standardize h col') of
                Inl e \<Rightarrow> Inl e
              | Inr d' \<Rightarrow> Inr (col', d'))))"

definition Standardize :: "helpers \<Rightarrow> DataFrame \<Rightarrow> panic + DataFrame" where
  "Standardize h df =
     (case for_each [0..<Cols (df_data df)] (standardize_body h)
             (replicate (Rows (df_data df)) 0, df_data df) of
        Inl e \<Rightarrow> Inl e
      | Inr (col, d) \<Rightarrow> Inr (df\<lparr>df_data := d\<rparr>))"

subsection \<open>isCorrelation and Train\<close>

text \<open>
  Both loops over the columns start from \<^verbatim>\<open>make([]float64, 0, f.x.cols)\<close>, a slice of
  length 0, and store at index \<open>i\<close> of it.
\<close>

definition cors_body :: "helpers \<Rightarrow> Dense \<Rightarrow> real list \<Rightarrow> nat \<Rightarrow> real list \<Rightarrow> panic + real list"
  where
  "cors_body h d yv i cors =
     (case Col d (int i) of Inl e \<Rightarrow> Inl e | Inr c \<Rightarrow> store cors i (h_cor h c yv))"

definition isCorrelation :: "helpers \<Rightarrow> ForwardStage \<Rightarrow> real list \<Rightarrow> (panic + bool) \<times> ForwardStage"
  where
  "isCorrelation h f yv =
     (if f_firstRun f then (Inr True, f\<lparr>f_firstRun := False\<rparr>)
      else (case for_each [0..<df_cols (f_x f)] (cors_body h (df_data (f_x f)) yv) [] of
              Inl e \<Rightarrow> (Inl e, f)
            | Inr cors \<Rightarrow> if h_max h cors < f_delta f then (Inr False, f) else (Inr True, f)))"

text \<open>
  One round of the loop of \<^verbatim>\<open>Train\<close>, on the estimator \<open>f\<close>, the local matrix \<open>x\<close> and the
  residual \<open>r\<close>; \<open>y\<close> is the argument of \<^verbatim>\<open>Train\<close>, with which the round correlates the
  columns.
\<close>

definition round_update ::
  "helpers \<Rightarrow> ForwardStage \<Rightarrow> Dense \<Rightarrow> real list \<Rightarrow> nat
     \<Rightarrow> panic option \<times> (ForwardStage \<times> Dense \<times> real list)" where
  "round_update h f x' r maxIdx =
     (case Col x' (int maxIdx) of
        Inl e \<Rightarrow> (Some e, (f, x', r))
      | Inr xc \<Rightarrow>
          (case index (f_betas f) maxIdx of
             Inl e \<Rightarrow> (Some e, (f, x', r))
           | Inr b \<Rightarrow>
               (None,
                (f\<lparr>f_betas :=
                     (f_betas f)[maxIdx := b + f_epsilon f * h_sign h (h_sum h (h_prod h xc r))]\<rparr>,
                 x',
                 h_diff h r
                   (h_multSlice h xc (f_epsilon f * h_sign h (h_sum h (h_prod h xc r))))))))"

definition round_body ::
  "helpers \<Rightarrow> real list \<Rightarrow> ForwardStage \<times> Dense \<times> real list
     \<Rightarrow> panic option \<times> (ForwardStage \<times> Dense \<times> real list)" where
  "round_body h y st =
     (case st of (f, x, r) \<Rightarrow>
        (case for_each [0..<df_cols (f_x f)] (cors_body h (df_data (f_x f)) y) [] of
           Inl e \<Rightarrow> (Some e, st)
         | Inr cors \<Rightarrow>
             (case Col (df_data (f_x f)) (int (SearchFloat64s cors (h_max h cors))) of
                Inl e \<Rightarrow> (Some e, st)
              | Inr c \<Rightarrow>
                  (case SetCol x (int (SearchFloat64s cors (h_max h cors))) c of
                     Inl e \<Rightarrow> (Some e, st)
                   | Inr x' \<Rightarrow> round_update h f x' r (SearchFloat64s cors (h_max h cors))))))"

text \<open>
  The loop \<^verbatim>\<open>for f.isCorrelation(r) { ... }\<close> has no other exit than the condition and a
  panic, so it is a partial function: \<open>None\<close> is a loop that does not end.
\<close>

partial_function (option) train_loop ::
  "helpers \<Rightarrow> real list \<Rightarrow> ForwardStage \<times> Dense \<times> real list
     \<Rightarrow> ((panic + error option) \<times> ForwardStage) option" where
  "train_loop h y st =
     (case isCorrelation h (fst st) (snd (snd st)) of
        (Inl e, f1) \<Rightarrow> Some (Inl e, f1)
      | (Inr go, f1) \<Rightarrow>
          if go then
            (case round_body h y (f1, fst (snd st), snd (snd st)) of
               (Some e, st2) \<Rightarrow> Some (Inl e, fst st2)
             | (None, st2) \<Rightarrow> train_loop h y st2)
          else Some (Inr None, f1))"

definition Train :: "helpers \<Rightarrow> ForwardStage \<Rightarrow> real list
    \<Rightarrow> ((panic + error option) \<times> ForwardStage) option" where
  "Train h f y =
     (case Standardize h (f_x f) of
        Inl e \<Rightarrow> Some (Inl e, f)
      | Inr dfx \<Rightarrow>
          (case NewDense_of (df_rows dfx) (df_cols dfx)
                  (h_rep h 0 (int (df_rows dfx) * int (df_cols dfx))) of
             Inl e \<Rightarrow>
               Some (Inl e, f\<lparr>f_x := dfx, f_betas := h_rep h 0 (int (df_cols dfx))\<rparr>)
           | Inr x \<Rightarrow>
               train_loop h y
                 (f\<lparr>f_x := dfx, f_betas := h_rep h 0 (int (df_cols dfx)), f_firstRun := True\<rparr>,
                  x, h_subtractMean h y)))"


section \<open>Well-formed matrices and frames\<close>

text \<open>
  A matrix of the library holds as many rows as \<open>Rows\<close> says, each of \<open>Cols\<close> entries.
  A frame built by \<^verbatim>\<open>DF\<close> carries the dimensions of its matrix.
\<close>

definition wf :: "Dense \<Rightarrow> bool" where
  "wf m \<longleftrightarrow> length (Data m) = Rows m \<and> (\<forall>row\<in>set (Data m). length row = Cols m)"

definition wf_frame :: "DataFrame \<Rightarrow> bool" where
  "wf_frame df \<longleftrightarrow>
     wf (df_data df) \<and> df_rows df = Rows (df_data df) \<and> df_cols df = Cols (df_data df)"

text \<open>The identity matrix, and the transpose of a matrix as a matrix of its own.\<close>

definition identity :: "nat \<Rightarrow> Dense" where
  "identity n =
     \<lparr>Rows = n, Cols = n, Data = map (\<lambda>i. map (\<lambda>j. if i = j then 1 else 0) [0..<n]) [0..<n]\<rparr>"

definition transpose_of :: "Dense \<Rightarrow> Dense" where
  "transpose_of a =
     \<lparr>Rows = Cols a, Cols = Rows a,
      Data = map (\<lambda>i. map (\<lambda>j. Data a ! j ! i) [0..<Rows a]) [0..<Cols a]\<rparr>"

text \<open>The product of two matrices as they stand, with no transposition.\<close>

definition mm :: "Dense \<Rightarrow> Dense \<Rightarrow> Dense" where
  "mm a b = product a False b False"

text \<open>
  \<open>B\<close> is an inverse of \<open>A\<close> when both products are the identity; a matrix is invertible
  when it has an inverse.
\<close>

definition inverse_of :: "Dense \<Rightarrow> Dense \<Rightarrow> bool" where
  "inverse_of A B \<longleftrightarrow>
     wf B \<and> Rows B = Cols A \<and> Cols B = Rows A
     \<and> mm B A = identity (Cols A) \<and> mm A B = identity (Rows A)"

definition invertible :: "Dense \<Rightarrow> bool" where
  "invertible A \<longleftrightarrow> (\<exists>B. inverse_of A B)"

section \<open>Concrete models\<close>

text \<open>
  Three observations of two predictors whose columns are orthonormal, so that the design
  matrix is its own \<open>Q\<close> factor and \<open>R\<close> is the identity; the response is \<open>[1, 1, 1]\<close>.
\<close>

definition X32 :: Dense where
  "X32 = \<lparr>Rows = 3, Cols = 2, Data = [[1, 0], [0, 1], [0, 0]]\<rparr>"

definition I2 :: Dense where
  "I2 = \<lparr>Rows = 2, Cols = 2, Data = [[1, 0], [0, 1]]\<rparr>"

text \<open>A refit that always succeeds and leaves the model as it is.\<close>

definition train_ok :: "OLS \<Rightarrow> real list \<Rightarrow> error option \<times> OLS" where
  "train_ok ols y = (None, ols)"

text \<open>
  Modelled from the spec: \<^verbatim>\<open>Train\<close> of \<^verbatim>\<open>OLS\<close> is not among the sources. \<open>train_spec\<close> has
  the failures that section 4.1 gives to the fit and that need no factorisation to be
  decided: \<open>DimensionError\<close> when the response has not \<open>n\<close> entries or the matrix has
  fewer rows than columns, \<open>RankDeficiencyError\<close> when a column of the design matrix is
  zero throughout (\<open>R\<close> is then singular). Otherwise it succeeds like \<open>train_ok\<close>.
\<close>

definition train_spec :: "OLS \<Rightarrow> real list \<Rightarrow> error option \<times> OLS" where
  "train_spec ols y =
     (if int (length y) = o_n ols \<and> Cols (df_data (o_x ols)) \<le> Rows (df_data (o_x ols))
      then (if list_ex (\<lambda>j. list_all (\<lambda>v. v = 0) (column (df_data (o_x ols)) j))
                 [0..<Cols (df_data (o_x ols))]
            then (Some RankDeficiencyError, ols)
            else (None, ols))
      else (Some DimensionError, ols))"

text \<open>
  An environment from the two factors of the design matrix, the inversion and the refit;
  its \<^verbatim>\<open>Rep\<close> repeats a value.
\<close>

definition env_of ::
  "Dense \<Rightarrow> Dense \<Rightarrow> (Dense \<Rightarrow> error + Dense) \<Rightarrow> (OLS \<Rightarrow> real list \<Rightarrow> error option \<times> OLS) \<Rightarrow> env"
  where
  "env_of Q R invert trn =
     \<lparr>QR_Q = (\<lambda>m. Inr Q), QR_R = (\<lambda>m. Inr R), Inverse = invert, OLS_Train = trn,
      MeanSquaredError = (\<lambda>ols. 1), RSquared = (\<lambda>ols. 0),
      Rep = (\<lambda>v k. replicate (nat k) v)\<rparr>"

definition E32 :: env where
  "E32 = env_of X32 I2 Inr train_ok"

definition ols32 :: OLS where
  "ols32 = \<lparr>o_x = \<lparr>df_data = X32, df_cols = 2, df_rows = 3, df_labels = []\<rparr>,
            o_n = 3, o_p = 2, o_residuals = [0, 0, 1], o_fitted = [1, 1, 0],
            o_hat = None\<rparr>"

text \<open>
  The same model with the refit of the specification; two observations of two collinear
  predictors (the design matrix is upper triangular, so \<open>Q\<close> is the identity and \<open>R\<close> the
  matrix itself, which no inversion accepts); and two observations of two orthonormal
  predictors.
\<close>

definition E32_spec :: env where
  "E32_spec = env_of X32 I2 Inr train_spec"

definition Xsing :: Dense where
  "Xsing = \<lparr>Rows = 2, Cols = 2, Data = [[1, 1], [0, 0]]\<rparr>"

definition Esing :: env where
  "Esing = env_of I2 Xsing (\<lambda>m. Inl ErrSingular) train_spec"

definition ols_sing :: OLS where
  "ols_sing = \<lparr>o_x = \<lparr>df_data = Xsing, df_cols = 2, df_rows = 2, df_labels = []\<rparr>,
               o_n = 2, o_p = 2, o_residuals = [0, 1], o_fitted = [1, 0], o_hat = None\<rparr>"



text \<open>The frame and the function of the package's test of \<^verbatim>\<open>Transform\<close>.\<close>

definition df3 :: DataFrame where
  "df3 = \<lparr>df_data = \<lparr>Rows = 3, Cols = 3, Data = [[1, 2, 3], [4, 5, 6], [7, 8, 9]]\<rparr>,
          df_cols = 3, df_rows = 3, df_labels = [''a'', ''b'', ''c'']\<rparr>"

definition add1 :: "real \<Rightarrow> real" where
  "add1 v = v + 1"

text \<open>
  An estimator on two observations of one predictor, with simple helpers: the column
  has mean 0 already and \<open>h_standardize\<close> leaves it as it is.
\<close>

definition H0 :: helpers where
  "H0 = \<lparr>h_standardize = (\<lambda>c. c), h_rep = (\<lambda>v k. replicate (nat k) v),
          h_subtractMean = (\<lambda>y. map (\<lambda>v. v - sum_list y / real (length y)) y),
          h_cor = (\<lambda>a b. 0), h_max = (\<lambda>xs. fold max xs 0), h_sign = sgn,
          h_sum = sum_list, h_prod = (\<lambda>a b. map (\<lambda>(u, v). u * v) (zip a b)),
          h_diff = (\<lambda>a b. map (\<lambda>(u, v). u - v) (zip a b)),
          h_multSlice = (\<lambda>a c. map (\<lambda>u. u * c) a)\<rparr>"

definition fs21 :: ForwardStage where
  "fs21 = \<lparr>f_x = \<lparr>df_data = \<lparr>Rows = 2, Cols = 1, Data = [[1], [-1]]\<rparr>, df_cols = 1,
                  df_rows = 2, df_labels = []\<rparr>,
           f_epsilon = 1 / 10, f_delta = 1 / 100, f_y = [], f_betas = [], f_p = 1,
           f_firstRun = False\<rparr>"

section \<open>Loops and matrices\<close>

lemma for_each_append:
  "for_each (xs @ ys) body s =
     (case for_each xs body s of Inl e \<Rightarrow> Inl e | Inr s' \<Rightarrow> for_each ys body s')"
  by (induction xs arbitrary: s) (auto split: sum.splits)

lemma for_each_upt_first:
  "0 < n \<Longrightarrow> for_each [0..<n] body s =
     (case body 0 s of Inl e \<Rightarrow> Inl e | Inr s' \<Rightarrow> for_each [Suc 0..<n] body s')"
  by (simp add: upt_conv_Cons)

lemma replicate_update_same: "(replicate n x)[i := x] = replicate n x"
  by (induction n arbitrary: i) (auto split: nat.splits)

lemma for_each_st_upt_first:
  "0 < n \<Longrightarrow> for_each_st [0..<n] body s =
     (case body 0 s of (Some e, s') \<Rightarrow> (Some e, s') | (None, s') \<Rightarrow> for_each_st [Suc 0..<n] body s')"
  by (simp add: upt_conv_Cons)

lemma replicate_small: "replicate 2 x = [x, x]" "replicate 3 x = [x, x, x]"
  by (simp_all add: numeral_2_eq_2 numeral_3_eq_3)

subsection \<open>Well-formed matrices\<close>

lemma dense_eqI:
  assumes "wf a" "wf b" "Rows a = Rows b" "Cols a = Cols b"
    and "\<And>i j. i < Rows a \<Longrightarrow> j < Cols a \<Longrightarrow> Data a ! i ! j = Data b ! i ! j"
  shows "a = b"
proof -
  have "Data a = Data b"
  proof (rule nth_equalityI)
    show "length (Data a) = length (Data b)" using assms by (simp add: wf_def)
  next
    fix i assume i: "i < length (Data a)"
    then have ia: "i < Rows a" and ib: "i < length (Data b)" using assms by (simp_all add: wf_def)
    have la: "length (Data a ! i) = Cols a" using assms(1) i by (simp add: wf_def)
    have lb: "length (Data b ! i) = Cols a" using assms(2,4) ib by (simp add: wf_def)
    show "Data a ! i = Data b ! i"
      by (rule nth_equalityI) (use la lb ia assms(5) in auto)
  qed
  then show ?thesis using assms(3,4) by (intro Dense.equality) simp_all
qed

lemma wf_NewDense: "wf (NewDense r c)"
  by (simp add: wf_def NewDense_def)

lemma Set_At_wf:
  assumes "wf m" "r < Rows m" "c < Cols m"
  shows "\<exists>m'. Set_At m r c v = Inr m' \<and> wf m' \<and> Rows m' = Rows m \<and> Cols m' = Cols m
           \<and> (\<forall>i<Rows m. \<forall>j<Cols m. Data m' ! i ! j = (if i = r \<and> j = c then v else Data m ! i ! j))"
proof -
  have len: "length (Data m) = Rows m" and row: "\<And>i. i < Rows m \<Longrightarrow> length (Data m ! i) = Cols m"
    using assms(1) by (auto simp: wf_def)
  have "\<forall>row\<in>set ((Data m)[r := (Data m ! r)[c := v]]). length row = Cols m"
    using assms(1,2) row[of r] by (auto simp: wf_def dest!: subsetD[OF set_update_subset_insert])
  then show ?thesis
    using assms len row by (auto simp: Set_At_def wf_def nth_list_update)
qed

subsection \<open>Products, transposes and the identity\<close>

lemma wf_product: "wf (product a s b t)"
  by (simp add: wf_def product_def)

lemma product_Rows: "Rows (product a s b t) = fst (dims_T a s)"
  and product_Cols: "Cols (product a s b t) = snd (dims_T b t)"
  by (simp_all add: product_def)

lemma product_entry:
  assumes "i < fst (dims_T a s)" "j < snd (dims_T b t)"
  shows "Data (product a s b t) ! i ! j = (\<Sum>k<snd (dims_T a s). at_T a s i k * at_T b t k j)"
  using assms by (simp add: product_def interv_sum_list_conv_sum_set_nat lessThan_atLeast0)

lemma wf_transpose_of: "wf (transpose_of a)"
  by (simp add: wf_def transpose_of_def)

lemma transpose_of_dims: "Rows (transpose_of a) = Cols a" "Cols (transpose_of a) = Rows a"
  by (simp_all add: transpose_of_def)

lemma transpose_of_entry:
  "i < Cols a \<Longrightarrow> j < Rows a \<Longrightarrow> Data (transpose_of a) ! i ! j = Data a ! j ! i"
  by (simp add: transpose_of_def)

lemma wf_identity: "wf (identity n)"
  by (simp add: wf_def identity_def)

lemma identity_dims: "Rows (identity n) = n" "Cols (identity n) = n"
  by (simp_all add: identity_def)

lemma identity_entry:
  "i < n \<Longrightarrow> j < n \<Longrightarrow> Data (identity n) ! i ! j = (if i = j then 1 else 0)"
  by (simp add: identity_def)

lemma wf_mm: "wf (mm a b)" by (simp add: mm_def wf_product)

lemma mm_dims: "Rows (mm a b) = Rows a" "Cols (mm a b) = Cols b"
  by (simp_all add: mm_def product_def dims_T_def)

lemma mm_entry:
  "i < Rows a \<Longrightarrow> j < Cols b \<Longrightarrow>
   Data (mm a b) ! i ! j = (\<Sum>k<Cols a. Data a ! i ! k * Data b ! k ! j)"
  using product_entry[of i a False j b False] by (simp add: mm_def dims_T_def at_T_def)

lemma product_as_mm:
  assumes "snd (dims_T a s) = fst (dims_T b t)"
  shows "product a s b t = mm (if s then transpose_of a else a) (if t then transpose_of b else b)"
proof (rule dense_eqI)
  fix i j
  assume "i < Rows (product a s b t)" "j < Cols (product a s b t)"
  then have ij: "i < fst (dims_T a s)" "j < snd (dims_T b t)"
    by (simp_all add: product_Rows product_Cols)
  show "Data (product a s b t) ! i ! j
        = Data (mm (if s then transpose_of a else a) (if t then transpose_of b else b)) ! i ! j"
    using ij assms
    by (cases s; cases t)
       (auto simp: product_entry mm_entry transpose_of_dims transpose_of_entry dims_T_def at_T_def
             intro!: sum.cong)
qed (simp_all add: wf_product wf_mm mm_dims transpose_of_dims product_Rows product_Cols
      dims_T_def)

lemma mm_assoc:
  assumes "Cols a = Rows b" "Cols b = Rows c"
  shows "mm (mm a b) c = mm a (mm b c)"
proof (rule dense_eqI)
  fix i j
  assume "i < Rows (mm (mm a b) c)" "j < Cols (mm (mm a b) c)"
  then have ij: "i < Rows a" "j < Cols c" by (simp_all add: mm_dims)
  have "Data (mm (mm a b) c) ! i ! j
        = (\<Sum>k<Cols b. (\<Sum>l<Cols a. Data a ! i ! l * Data b ! l ! k) * Data c ! k ! j)"
    using ij by (simp add: mm_entry mm_dims)
  also have "\<dots> = (\<Sum>k<Cols b. \<Sum>l<Cols a. Data a ! i ! l * (Data b ! l ! k * Data c ! k ! j))"
    by (simp add: sum_distrib_right mult.assoc)
  also have "\<dots> = (\<Sum>l<Cols a. \<Sum>k<Cols b. Data a ! i ! l * (Data b ! l ! k * Data c ! k ! j))"
    by (rule sum.swap)
  also have "\<dots> = (\<Sum>l<Cols a. Data a ! i ! l * (\<Sum>k<Cols b. Data b ! l ! k * Data c ! k ! j))"
    by (simp add: sum_distrib_left)
  also have "\<dots> = Data (mm a (mm b c)) ! i ! j"
    using ij assms by (simp add: mm_entry mm_dims)
  finally show "Data (mm (mm a b) c) ! i ! j = Data (mm a (mm b c)) ! i ! j" .
qed (simp_all add: wf_mm mm_dims)

lemma transpose_of_mm:
  assumes "Cols a = Rows b"
  shows "transpose_of (mm a b) = mm (transpose_of b) (transpose_of a)"
proof (rule dense_eqI)
  fix i j
  assume "i < Rows (transpose_of (mm a b))" "j < Cols (transpose_of (mm a b))"
  then have ij: "i < Cols b" "j < Rows a" by (simp_all add: mm_dims transpose_of_dims)
  show "Data (transpose_of (mm a b)) ! i ! j = Data (mm (transpose_of b) (transpose_of a)) ! i ! j"
    using ij assms
    by (auto simp: transpose_of_entry mm_entry mm_dims transpose_of_dims mult.commute
          intro!: sum.cong)
qed (simp_all add: wf_mm wf_transpose_of mm_dims transpose_of_dims)

lemma transpose_of_identity: "transpose_of (identity n) = identity n"
  by (rule dense_eqI)
     (auto simp: wf_transpose_of wf_identity transpose_of_dims identity_dims transpose_of_entry
        identity_entry)

lemma mm_identity_right:
  assumes "wf a" "Cols a = n"
  shows "mm a (identity n) = a"
proof (rule dense_eqI)
  fix i j
  assume "i < Rows (mm a (identity n))" "j < Cols (mm a (identity n))"
  then have ij: "i < Rows a" "j < n" by (simp_all add: mm_dims identity_dims)
  have "Data (mm a (identity n)) ! i ! j = (\<Sum>k<n. Data a ! i ! k * (if k = j then 1 else 0))"
    using ij assms by (simp add: mm_entry identity_dims identity_entry)
  also have "\<dots> = (\<Sum>k<n. if k = j then Data a ! i ! j else 0)"
    by (rule sum.cong) auto
  also have "\<dots> = Data a ! i ! j"
    using ij by (simp add: sum.delta)
  finally show "Data (mm a (identity n)) ! i ! j = Data a ! i ! j" .
qed (use assms in \<open>simp_all add: wf_mm mm_dims identity_dims\<close>)

lemma mm_identity_left:
  assumes "wf a" "Rows a = n"
  shows "mm (identity n) a = a"
proof (rule dense_eqI)
  fix i j
  assume "i < Rows (mm (identity n) a)" "j < Cols (mm (identity n) a)"
  then have ij: "i < n" "j < Cols a" by (simp_all add: mm_dims identity_dims)
  have "Data (mm (identity n) a) ! i ! j = (\<Sum>k<n. (if i = k then 1 else 0) * Data a ! k ! j)"
    using ij assms by (simp add: mm_entry identity_dims identity_entry)
  also have "\<dots> = (\<Sum>k<n. if k = i then Data a ! i ! j else 0)"
    by (rule sum.cong) auto
  also have "\<dots> = Data a ! i ! j"
    using ij by (simp add: sum.delta)
  finally show "Data (mm (identity n) a) ! i ! j = Data a ! i ! j" .
qed (use assms in \<open>simp_all add: wf_mm mm_dims identity_dims\<close>)

lemma NewDense_entry: "i < r \<Longrightarrow> j < c \<Longrightarrow> Data (NewDense r c) ! i ! j = 0"
  by (simp add: NewDense_def)

lemma NewDense_dims: "Rows (NewDense r c) = r" "Cols (NewDense r c) = c"
  by (simp_all add: NewDense_def)

lemma product_zero_right:
  assumes "Cols a = n"
  shows "product a False (NewDense n c) False = NewDense (Rows a) c"
  by (rule dense_eqI)
     (use assms in \<open>simp_all add: wf_product wf_NewDense product_Rows product_Cols NewDense_dims
        product_entry dims_T_def at_T_def NewDense_entry\<close>)

lemma product_zero_left:
  assumes "Cols q = c"
  shows "product (NewDense n c) False q True = NewDense n (Rows q)"
  by (rule dense_eqI)
     (use assms in \<open>simp_all add: wf_product wf_NewDense product_Rows product_Cols NewDense_dims
        product_entry dims_T_def at_T_def NewDense_entry\<close>)

subsection \<open>Writing a column\<close>

lemma set_column_length: "length (set_column j v rws) = length rws"
  by (simp add: set_column_def min_def)

lemma set_column_other:
  assumes "j \<noteq> j'"
  shows "map (\<lambda>row. row ! j') (set_column j v rws) = map (\<lambda>row. row ! j') rws"
proof -
  have "map (\<lambda>row. row ! j') (map (\<lambda>(row, x). row[j := x]) (zip (take (length v) rws) v))
        = map (\<lambda>row. row ! j') (map fst (zip (take (length v) rws) v))"
    using assms by (auto simp: nth_list_update)
  also have "map fst (zip (take (length v) rws) v) = take (length v) rws"
    by (simp add: map_fst_zip_take min_def)
  finally have A:
    "map (\<lambda>row. row ! j') (map (\<lambda>(row, x). row[j := x]) (zip (take (length v) rws) v))
       = map (\<lambda>row. row ! j') (take (length v) rws)" .
  show ?thesis
    unfolding set_column_def map_append A
    by (simp only: map_append[symmetric] append_take_drop_id)
qed

lemma set_column_same:
  assumes "\<forall>row\<in>set rws. j < length row"
  shows "map (\<lambda>row. row ! j) (set_column j v rws)
           = take (length rws) v @ drop (length v) (map (\<lambda>row. row ! j) rws)"
proof -
  have "map (\<lambda>row. row ! j) (map (\<lambda>(row, x). row[j := x]) (zip (take (length v) rws) v))
        = map snd (zip (take (length v) rws) v)"
    using assms by (auto dest!: set_zip_leftD in_set_takeD)
  also have "\<dots> = take (length rws) v"
    by (simp add: map_snd_zip_take min_def)
  finally have A:
    "map (\<lambda>row. row ! j) (map (\<lambda>(row, x). row[j := x]) (zip (take (length v) rws) v))
       = take (length rws) v" .
  show ?thesis
    unfolding set_column_def map_append A by (simp only: drop_map)
qed

lemma set_column_wf:
  "\<forall>row\<in>set rws. length row = c \<Longrightarrow> \<forall>row\<in>set (set_column j v rws). length row = c"
  by (auto simp: set_column_def dest!: set_zip_leftD in_set_takeD in_set_dropD)


section \<open>Leverage, Cook's distance and PRESS\<close>

subsection \<open>The loop that fills trans\<close>

lemma trans_body_zero:
  "i < r \<Longrightarrow> j < c \<Longrightarrow> trans_body p i j (NewDense r c) = Inr (NewDense r c)"
  by (simp add: trans_body_def Set_At_def NewDense_def replicate_update_same)

lemma trans_body_panic:
  "i < r \<Longrightarrow> trans_body p i c (NewDense r c) = Inl (PanicError ErrColAccess)"
  by (simp add: trans_body_def Set_At_def NewDense_def)

lemma trans_row_zero:
  "i < r \<Longrightarrow> k \<le> c \<Longrightarrow> for_each [0..<k] (trans_body p i) (NewDense r c) = Inr (NewDense r c)"
  by (induction k) (auto simp: for_each_append trans_body_zero)

lemma trans_row_panic:
  assumes "i < r" "c < n"
  shows "for_each [0..<n] (trans_body p i) (NewDense r c) = Inl (PanicError ErrColAccess)"
proof -
  have "[0..<n] = [0..<c] @ c # [Suc c..<n]"
    using assms(2)
    by (metis less_imp_le_nat upt_add_eq_append upt_conv_Cons zero_le le_add_diff_inverse)
  then show ?thesis
    using assms by (simp add: for_each_append trans_row_zero trans_body_panic)
qed

lemma trans_loop_zero:
  "n \<le> c \<Longrightarrow> k \<le> r \<Longrightarrow>
   for_each [0..<k] (\<lambda>i. for_each [0..<n] (trans_body p i)) (NewDense r c) = Inr (NewDense r c)"
  by (induction k) (auto simp: for_each_append trans_row_zero)

lemma trans_loop_panic:
  assumes "c < n"
  shows "for_each [0..<n] (\<lambda>i. for_each [0..<n] (trans_body p i)) (NewDense n c)
          = Inl (PanicError ErrColAccess)"
proof -
  have "0 < n" using assms by simp
  then show ?thesis
    unfolding for_each_upt_first[OF \<open>0 < n\<close>, of "\<lambda>i. for_each [0..<n] (trans_body p i)"]
    using assms by (simp add: trans_row_panic)
qed

subsection \<open>As many observations as predictors, or fewer\<close>

text \<open>
  When \<open>Q\<close> is square the loop ends, but it has stored \<open>0.0\<close> over every \<open>1.0\<close>: \<^verbatim>\<open>trans\<close>
  is the zero matrix, so is the hat matrix, and every leverage value is 0. With fewer
  rows than columns the product \<^verbatim>\<open>H.Mul(q, trans)\<close> of two matrices of the same shape is
  refused. So \<^verbatim>\<open>LeveragePoints\<close> returns nothing but zeros, whatever the model.
\<close>

lemma diag_body_zero:
  "i < n \<Longrightarrow> j < n \<Longrightarrow> diag_body (NewDense n n) i j (replicate n 0) = Inr (replicate n 0)"
  by (simp add: diag_body_def At_def NewDense_dims NewDense_entry store_def replicate_update_same)

lemma diag_row_zero:
  "i < n \<Longrightarrow> m \<le> n \<Longrightarrow>
   for_each [0..<m] (diag_body (NewDense n n) i) (replicate n 0) = Inr (replicate n 0)"
  by (induction m) (auto simp: for_each_append diag_body_zero)

lemma diag_loop_zero:
  "k \<le> n \<Longrightarrow>
   for_each [0..<k] (\<lambda>i. for_each [0..<n] (diag_body (NewDense n n) i)) (replicate n 0)
     = Inr (replicate n 0)"
  by (induction k) (auto simp: for_each_append diag_row_zero)

lemma LeveragePoints_square:
  assumes "QR_Q E (df_data (o_x ols)) = Inr q" and "Rows q = Cols q"
  shows "LeveragePoints E ols
           = (Inr (replicate (Rows q) 0), ols\<lparr>o_hat := Some (NewDense (Rows q) (Rows q))\<rparr>)"
  using assms
  by (simp add: LeveragePoints_def trans_loop_zero Mul_def MulTrans_def dims_T_def NewDense_dims
      product_zero_right product_zero_left diag_loop_zero)

lemma LeveragePoints_fewer_rows:
  assumes "QR_Q E (df_data (o_x ols)) = Inr q" and "Rows q < Cols q"
  shows "LeveragePoints E ols = (Inl (PanicError ErrShape), ols)"
  using assms
  by (simp add: LeveragePoints_def trans_loop_zero Mul_def MulTrans_def dims_T_def NewDense_dims)

lemma LeveragePoints_returns_zeros:
  assumes "fst (LeveragePoints E ols) = Inr h"
  shows "h = replicate (length h) 0"
proof (cases "QR_Q E (df_data (o_x ols))")
  case (Inl e)
  then show ?thesis using assms by (simp add: LeveragePoints_def)
next
  case (Inr q)
  consider "Cols q < Rows q" | "Rows q = Cols q" | "Rows q < Cols q" by linarith
  then show ?thesis
  proof cases
    case 1
    then show ?thesis 
      using assms Inr by (simp add: LeveragePoints_def trans_loop_panic)
  next
    case 2
    from LeveragePoints_square[OF Inr 2] assms show ?thesis by auto
  next
    case 3
    from LeveragePoints_fewer_rows[OF Inr 3] assms show ?thesis by simp
  qed
qed

subsection \<open>More observations than predictors\<close>

text \<open>
  C1. \<^verbatim>\<open>LeveragePoints\<close> does not return the leverage values. Whenever the \<open>Q\<close> factor
  has more rows than columns, that is more observations than predictors, the loop that
  fills \<^verbatim>\<open>trans\<close> (as many columns as \<open>Q\<close>) runs its column index up to the number of
  rows, the store outside the matrix panics and no sequence is returned.
\<close>

theorem LeveragePoints_more_rows_than_columns:
  assumes "QR_Q E (df_data (o_x ols)) = Inr q" and "Cols q < Rows q"
  shows "LeveragePoints E ols = (Inl (PanicError ErrColAccess), ols)"
  using assms by (simp add: LeveragePoints_def trans_loop_panic)

theorem LeveragePoints_n3_p2:
  "LeveragePoints E32 ols32 = (Inl (PanicError ErrColAccess), ols32)"
  using LeveragePoints_more_rows_than_columns [of E32 ols32 X32]
  by (simp add: E32_def env_of_def ols32_def X32_def)

text \<open>
  C2. \<^verbatim>\<open>CooksDistance\<close> starts with \<^verbatim>\<open>LeveragePoints\<close>, before any goroutine exists, so
  with more observations than predictors it panics as well and returns no distances.
\<close>

theorem CooksDistance_more_rows_than_columns:
  assumes "QR_Q E (df_data (o_x ols)) = Inr q" and "Cols q < Rows q"
  shows "CooksDistance E ols = (Inl (PanicError ErrColAccess), ols)"
  using assms by (simp add: CooksDistance_def LeveragePoints_def trans_loop_panic)

theorem CooksDistance_n3_p2:
  "CooksDistance E32 ols32 = (Inl (PanicError ErrColAccess), ols32)"
  using CooksDistance_more_rows_than_columns [of E32 ols32 X32]
  by (simp add: E32_def env_of_def ols32_def X32_def)

subsection \<open>The loop of PRESS\<close>

text \<open>
  The loop of \<^verbatim>\<open>PRESS\<close> is the closed form: whenever \<^verbatim>\<open>LeveragePoints\<close> returns values
  \<open>h\<close>, \<^verbatim>\<open>PRESS\<close> returns \<open>residual\<^sub>i / (1 - h\<^sub>i)\<close> for every observation, with no refit.
\<close>

lemma LeveragePoints_writes_hat_only:
  assumes "LeveragePoints E ols = (r, ols1)"
  shows "ols1 = ols\<lparr>o_hat := o_hat ols1\<rparr>"
  using assms by (auto simp: LeveragePoints_def split: sum.splits)

lemma press_loop:
  assumes "k \<le> length press" "k \<le> length (o_residuals ols)" "k \<le> length h"
  shows "for_each [0..<k] (press_body ols h) press
           = Inr (map (\<lambda>i. o_residuals ols ! i / (1 - h ! i)) [0..<k] @ drop k press)"
  using assms
proof (induction k)
  case 0
  then show ?case by simp
next
  case (Suc k)
  then show ?case
    by (simp add: for_each_append press_body_def index_def store_def list_update_append
        upd_conv_take_nth_drop min_def)
qed

lemma PRESS_closed_form:
  assumes "LeveragePoints E ols = (Inr h, ols1)" and "0 \<le> o_n ols"
    and "nat (o_n ols) \<le> length (o_residuals ols)" and "nat (o_n ols) \<le> length h"
  shows "PRESS E ols
           = (Inr (map (\<lambda>i. o_residuals ols ! i / (1 - h ! i)) [0..<nat (o_n ols)]), ols1)"
proof -
  from LeveragePoints_writes_hat_only[OF assms(1)] obtain hat where o: "ols1 = ols\<lparr>o_hat := hat\<rparr>"
    by metis
  have "for_each [0..<nat (o_n ols)] (press_body ols1 h) (replicate (nat (o_n ols)) 0)
          = Inr (map (\<lambda>i. o_residuals ols ! i / (1 - h ! i)) [0..<nat (o_n ols)])"
    using press_loop[of "nat (o_n ols)" "replicate (nat (o_n ols)) 0" ols1 h] assms(3,4)
    by (simp add: o)
  then show ?thesis
    using assms(1,2) by (simp add: PRESS_def make_slice_def o)
qed

text \<open>
  C3. \<^verbatim>\<open>PRESS\<close> allocates its result and then calls \<^verbatim>\<open>LeveragePoints\<close>, so with more
  observations than predictors it panics and returns no sequence.
\<close>

theorem PRESS_more_rows_than_columns:
  assumes "QR_Q E (df_data (o_x ols)) = Inr q" and "Cols q < Rows q" and "0 \<le> o_n ols"
  shows "PRESS E ols = (Inl (PanicError ErrColAccess), ols)"
  using assms by (simp add: PRESS_def make_slice_def LeveragePoints_def trans_loop_panic)

theorem PRESS_n3_p2:
  "PRESS E32 ols32 = (Inl (PanicError ErrColAccess), ols32)"
  using PRESS_more_rows_than_columns [of E32 ols32 X32]
  by (simp add: E32_def env_of_def ols32_def X32_def)

section \<open>The variance-covariance matrix\<close>

subsection \<open>The copy of R\<close>

lemma raug_row:
  assumes "wf A" "Rows A = p" "Cols A = p" "i < p" "i < Rows R" "k \<le> p" "k \<le> Cols R"
  shows "\<exists>A'. for_each [0..<k] (raug_body R i) A = Inr A' \<and> wf A' \<and> Rows A' = p \<and> Cols A' = p
           \<and> (\<forall>i'<p. \<forall>j'<p. Data A' ! i' ! j'
                  = (if i' = i \<and> j' < k then Data R ! i ! j' else Data A ! i' ! j'))"
  using assms(6,7)
proof (induction k)
  case 0
  then show ?case using assms by simp
next
  case (Suc k)
  then obtain A' where A': "for_each [0..<k] (raug_body R i) A = Inr A'" "wf A'" "Rows A' = p"
    "Cols A' = p"
    "\<forall>i'<p. \<forall>j'<p. Data A' ! i' ! j' = (if i' = i \<and> j' < k then Data R ! i ! j' else Data A ! i' ! j')"
    by auto
  have ik: "i < Rows A'" "k < Cols A'" using A' assms(4) Suc.prems by simp_all
  from Set_At_wf[OF A'(2) ik, of "Data R ! i ! k"]
  obtain A'' where A'': "Set_At A' i k (Data R ! i ! k) = Inr A''" "wf A''" "Rows A'' = p"
    "Cols A'' = p"
    "\<forall>i'<p. \<forall>j'<p. Data A'' ! i' ! j' = (if i' = i \<and> j' = k then Data R ! i ! k else Data A' ! i' ! j')"
    using A'(3,4) by auto
  have "raug_body R i k A' = Inr A''"
    using A''(1) assms(5) Suc.prems by (simp add: raug_body_def At_def)
  then have "for_each [0..<Suc k] (raug_body R i) A = Inr A''"
    using A'(1) by (simp add: for_each_append)
  moreover have "\<forall>i'<p. \<forall>j'<p. Data A'' ! i' ! j'
                  = (if i' = i \<and> j' < Suc k then Data R ! i ! j' else Data A ! i' ! j')"
    using A'(5) A''(5) by (auto simp: less_Suc_eq)
  ultimately show ?case using A'' by blast
qed

lemma raug_loop:
  assumes "wf A" "Rows A = p" "Cols A = p" "p \<le> Cols R" "k \<le> p" "k \<le> Rows R"
  shows "\<exists>A'. for_each [0..<k] (\<lambda>i. for_each [0..<p] (raug_body R i)) A = Inr A' \<and> wf A'
           \<and> Rows A' = p \<and> Cols A' = p
           \<and> (\<forall>i'<p. \<forall>j'<p. Data A' ! i' ! j'
                  = (if i' < k then Data R ! i' ! j' else Data A ! i' ! j'))"
  using assms(5,6)
proof (induction k)
  case 0
  then show ?case using assms by simp
next
  case (Suc k)
  then obtain A' where A': "for_each [0..<k] (\<lambda>i. for_each [0..<p] (raug_body R i)) A = Inr A'"
    "wf A'" "Rows A' = p" "Cols A' = p"
    "\<forall>i'<p. \<forall>j'<p. Data A' ! i' ! j' = (if i' < k then Data R ! i' ! j' else Data A ! i' ! j')"
    by auto
  have "k < p" "k < Rows R" using Suc.prems by simp_all
  from raug_row[OF A'(2,3,4) this order_refl assms(4)]
  obtain A'' where A'': "for_each [0..<p] (raug_body R k) A' = Inr A''" "wf A''" "Rows A'' = p"
    "Cols A'' = p"
    "\<forall>i'<p. \<forall>j'<p. Data A'' ! i' ! j' = (if i' = k \<and> j' < p then Data R ! k ! j' else Data A' ! i' ! j')"
    by blast
  have "for_each [0..<Suc k] (\<lambda>i. for_each [0..<p] (raug_body R i)) A = Inr A''"
    using A'(1) A''(1) by (simp add: for_each_append)
  moreover have "\<forall>i'<p. \<forall>j'<p. Data A'' ! i' ! j'
                  = (if i' < Suc k then Data R ! i' ! j' else Data A ! i' ! j')"
    using A'(5) A''(5) by (auto simp: less_Suc_eq)
  ultimately show ?case using A'' by blast
qed

lemma Raug_of_returns:
  assumes "p \<le> Rows R" "p \<le> Cols R"
  shows "\<exists>Raug. Raug_of R p = Inr Raug \<and> wf Raug \<and> Rows Raug = p \<and> Cols Raug = p
           \<and> (\<forall>i<p. \<forall>j<p. Data Raug ! i ! j = Data R ! i ! j)"
proof -
  have "Rows (NewDense p p) = p" "Cols (NewDense p p) = p" by (simp_all add: NewDense_def)
  from raug_loop[OF wf_NewDense this assms(2) order_refl assms(1)]
  show ?thesis by (auto simp: Raug_of_def)
qed

lemma Raug_of_square:
  assumes "wf R" "Rows R = p" "Cols R = p"
  shows "Raug_of R p = Inr R"
proof -
  from Raug_of_returns[of p R] assms obtain Raug where
    R: "Raug_of R p = Inr Raug" "wf Raug" "Rows Raug = p" "Cols Raug = p"
     "\<forall>i<p. \<forall>j<p. Data Raug ! i ! j = Data R ! i ! j" by auto
  have "Raug = R"
    by (rule dense_eqI) (use R assms in auto)
  with R show ?thesis by simp
qed

subsection \<open>The inverse of the Gram matrix\<close>

lemma gram_of_QR:
  assumes "wf Q" "Cols Q = p" "wf R" "Rows R = p" "Cols R = p"
    and I: "mm (transpose_of Q) Q = identity p"
  shows "mm (transpose_of (mm Q R)) (mm Q R) = mm (transpose_of R) R"
proof -
  note d = assms(2,4,5)
  have "mm (transpose_of (mm Q R)) (mm Q R) = mm (mm (transpose_of R) (transpose_of Q)) (mm Q R)"
    using d by (simp add: transpose_of_mm)
  also have "\<dots> = mm (transpose_of R) (mm (transpose_of Q) (mm Q R))"
    using d by (simp add: mm_assoc transpose_of_dims mm_dims)
  also have "mm (transpose_of Q) (mm Q R) = mm (mm (transpose_of Q) Q) R"
    using d by (simp add: mm_assoc transpose_of_dims)
  also have "\<dots> = mm (identity p) R"
    by (simp only: I)
  also have "\<dots> = R"
    using assms(3,4) by (rule mm_identity_left)
  finally show ?thesis .
qed

lemma inverse_of_gram:
  assumes "wf R" "Rows R = p" "Cols R = p" "wf P" "Rows P = p" "Cols P = p"
    and PR: "mm P R = identity p" and RP: "mm R P = identity p"
  shows "mm (mm P (transpose_of P)) (mm (transpose_of R) R) = identity p"
    and "mm (mm (transpose_of R) R) (mm P (transpose_of P)) = identity p"
proof -
  note d = assms(2,3,5,6)
  have "mm (mm P (transpose_of P)) (mm (transpose_of R) R)
        = mm P (mm (transpose_of P) (mm (transpose_of R) R))"
    using d by (simp add: mm_assoc transpose_of_dims mm_dims)
  also have "mm (transpose_of P) (mm (transpose_of R) R) = mm (mm (transpose_of P) (transpose_of R)) R"
    using d by (simp add: mm_assoc transpose_of_dims)
  also have "mm (transpose_of P) (transpose_of R) = transpose_of (mm R P)"
    using d by (simp add: transpose_of_mm)
  also have "\<dots> = identity p"
    by (simp only: RP transpose_of_identity)
  also have "mm (identity p) R = R"
    using assms(1,2) by (rule mm_identity_left)
  also note PR
  finally show "mm (mm P (transpose_of P)) (mm (transpose_of R) R) = identity p" .
  have "mm (mm (transpose_of R) R) (mm P (transpose_of P))
        = mm (transpose_of R) (mm R (mm P (transpose_of P)))"
    using d by (simp add: mm_assoc transpose_of_dims mm_dims)
  also have "mm R (mm P (transpose_of P)) = mm (mm R P) (transpose_of P)"
    using d by (simp add: mm_assoc transpose_of_dims)
  also have "\<dots> = mm (identity p) (transpose_of P)"
    by (simp only: RP)
  also have "\<dots> = transpose_of P"
    using d by (intro mm_identity_left) (simp_all add: wf_transpose_of transpose_of_dims)
  also have "mm (transpose_of R) (transpose_of P) = transpose_of (mm P R)"
    using d by (simp add: transpose_of_mm)
  also have "\<dots> = identity p"
    by (simp only: PR transpose_of_identity)
  finally show "mm (mm (transpose_of R) R) (mm P (transpose_of P)) = identity p" .
qed

lemma product_self_transpose_symmetric:
  assumes "i < Rows P" "j < Rows P"
  shows "Data (product P False P True) ! i ! j = Data (product P False P True) ! j ! i"
  using assms by (simp add: product_entry dims_T_def at_T_def mult.commute)

text \<open>
  C4. Let the design matrix \<open>X\<close> of a fitted model with \<open>p\<close> predictors have the
  factorisation \<open>X = Q R\<close> with \<open>Q\<close> of orthonormal columns and \<open>R\<close> a \<open>p\<close> by \<open>p\<close>
  matrix, and let the library invert \<open>R\<close>. Then \<^verbatim>\<open>VarianceCovarianceMatrix\<close> returns
  the \<open>p\<close> by \<open>p\<close> matrix \<open>M = R\<^sup>-\<^sup>1 (R\<^sup>-\<^sup>1)\<^sup>T\<close>, which is symmetric and is the
  inverse of \<open>X\<^sup>T X\<close> on both sides. (Entries are real numbers here.)
\<close>

theorem VarianceCovarianceMatrix_is_inverse_of_gram:
  assumes "wf Q" and "Cols Q = o_p ols"
    and "wf R" and "Rows R = o_p ols" and "Cols R = o_p ols"
    and "df_data (o_x ols) = product Q False R False"
    and "product Q True Q False = identity (o_p ols)"
    and "QR_R E (df_data (o_x ols)) = Inr R"
    and "Inverse E R = Inr Rinv"
    and "wf Rinv" and "Rows Rinv = o_p ols" and "Cols Rinv = o_p ols"
    and "product Rinv False R False = identity (o_p ols)"
    and "product R False Rinv False = identity (o_p ols)"
  shows "\<exists>M. VarianceCovarianceMatrix E ols = Inr M
           \<and> M = product Rinv False Rinv True
           \<and> Rows M = o_p ols \<and> Cols M = o_p ols
           \<and> (\<forall>i<o_p ols. \<forall>j<o_p ols. Data M ! i ! j = Data M ! j ! i)
           \<and> product M False (product (df_data (o_x ols)) True (df_data (o_x ols)) False) False
               = identity (o_p ols)
           \<and> product (product (df_data (o_x ols)) True (df_data (o_x ols)) False) False M False
               = identity (o_p ols)"
proof -
  let ?p = "o_p ols" and ?X = "df_data (o_x ols)"
  let ?M = "product Rinv False Rinv True"
  let ?G = "product ?X True ?X False"
  have run: "VarianceCovarianceMatrix E ols = Inr ?M"
    using assms
    by (simp add: VarianceCovarianceMatrix_def Raug_of_square MulTrans_def dims_T_def)
  have dims: "Rows ?M = ?p" "Cols ?M = ?p"
    using assms by (simp_all add: product_Rows product_Cols dims_T_def)
  have sym: "\<forall>i<?p. \<forall>j<?p. Data ?M ! i ! j = Data ?M ! j ! i"
    using assms(11) product_self_transpose_symmetric[of _ Rinv] by simp
  have X: "?X = mm Q R" using assms(6) by (simp add: mm_def)
  have QtQ: "mm (transpose_of Q) Q = identity ?p"
    using assms(7) by (simp add: product_as_mm dims_T_def)
  have PR: "mm Rinv R = identity ?p" and RP: "mm R Rinv = identity ?p"
    using assms(13,14) by (simp_all add: mm_def)
  have M: "?M = mm Rinv (transpose_of Rinv)"
    by (simp add: product_as_mm dims_T_def)
  have "?G = mm (transpose_of ?X) ?X"
    by (simp add: product_as_mm dims_T_def)
  also have "\<dots> = mm (transpose_of R) R"
    unfolding X using assms(1-5) QtQ by (rule gram_of_QR)
  finally have G: "?G = mm (transpose_of R) R" .
  have "product ?M False ?G False = mm ?M ?G"
    by (simp add: mm_def)
  also have "\<dots> = identity ?p"
    unfolding M G using assms(3-5,10-12) PR RP by (rule inverse_of_gram(1))
  finally have MG: "product ?M False ?G False = identity ?p" .
  have "product ?G False ?M False = mm ?G ?M"
    by (simp add: mm_def)
  also have "\<dots> = identity ?p"
    unfolding M G using assms(3-5,10-12) PR RP by (rule inverse_of_gram(2))
  finally have GM: "product ?G False ?M False = identity ?p" .
  from run dims sym MG GM show ?thesis by blast
qed

lemma small_products:
  "product X32 False I2 False = X32"
  "product X32 True X32 False = I2"
  "product I2 False I2 False = I2"
  "product I2 False I2 True = I2"
  "identity 2 = I2"
  by (simp_all add: product_def dims_T_def at_T_def X32_def I2_def identity_def upt_conv_Cons)

theorem VarianceCovarianceMatrix_n3_p2:
  "VarianceCovarianceMatrix E32 ols32 = Inr I2
   \<and> product I2 False (product X32 True X32 False) False = identity 2
   \<and> product (product X32 True X32 False) False I2 False = identity 2"
proof -
  have w: "wf X32" "wf I2" by (simp_all add: wf_def X32_def I2_def)
  have d: "Cols X32 = o_p ols32" "Rows I2 = o_p ols32" "Cols I2 = o_p ols32"
    by (simp_all add: X32_def I2_def ols32_def)
  have x: "df_data (o_x ols32) = product X32 False I2 False"
    by (simp add: small_products) (simp add: ols32_def)
  have q: "product X32 True X32 False = identity (o_p ols32)"
    by (simp add: small_products) (simp add: ols32_def small_products)
  have r: "QR_R E32 (df_data (o_x ols32)) = Inr I2" "Inverse E32 I2 = Inr I2"
    by (simp_all add: E32_def env_of_def)
  have i: "product I2 False I2 False = identity (o_p ols32)"
    by (simp add: small_products) (simp add: ols32_def small_products)
  from VarianceCovarianceMatrix_is_inverse_of_gram
         [OF w(1) d(1) w(2) d(2) d(3) x q r w(2) d(2) d(3) i i]
  show ?thesis
    by (simp add: small_products)
qed

subsection \<open>An R that is not invertible\<close>

lemma Xsing_not_invertible: "\<not> invertible Xsing"
proof
  assume "invertible Xsing"
  then obtain B where B: "inverse_of Xsing B" by (auto simp: invertible_def)
  then have c: "Cols B = 2" and m: "mm Xsing B = identity 2"
    by (simp_all add: inverse_of_def Xsing_def)
  have "Data (mm Xsing B) ! 1 ! 1 = (\<Sum>k<Cols Xsing. Data Xsing ! 1 ! k * Data B ! k ! 1)"
    by (rule mm_entry) (simp_all add: Xsing_def c)
  also have "\<dots> = 0" by (simp add: Xsing_def lessThan_Suc numeral_2_eq_2)
  finally have "Data (mm Xsing B) ! 1 ! 1 = 0" .
  moreover have "Data (identity 2) ! 1 ! 1 = (1::real)" by (simp add: identity_entry)
  ultimately show False using m by simp
qed

lemma I2_inverse_of_I2: "inverse_of I2 I2"
  using small_products(3,5)
  by (simp add: inverse_of_def mm_def) (simp add: I2_def wf_def)

text \<open>
  C5, as stated, fails: on two collinear predictors, where the library reports that the
  matrix is singular, \<^verbatim>\<open>VarianceCovarianceMatrix\<close> returns no error value. It panics with a
  string; no \<open>SingularMatrixError\<close> reaches the caller.
\<close>

theorem VarianceCovarianceMatrix_collinear:
  "VarianceCovarianceMatrix Esing ols_sing = Inl (PanicString ''R matrix is not invertible'')
   \<and> VarianceCovarianceMatrix Esing ols_sing \<noteq> Inl (PanicError SingularMatrixError)"
  by (simp add: VarianceCovarianceMatrix_def Esing_def env_of_def ols_sing_def Xsing_def Raug_of_def
      raug_body_def At_def Set_At_def NewDense_def upt_conv_Cons)

text \<open>
  C5, amended. Let the factorisation return the \<open>p\<close> by \<open>p\<close> factor \<open>R\<close> and let the
  library's inversion keep its contract on \<open>R\<close>: an error only for a matrix that has no
  inverse, otherwise an inverse. Then \<^verbatim>\<open>VarianceCovarianceMatrix\<close> fails exactly when
  \<open>R\<close> is not invertible, and it fails by a panic with the message
  \<^verbatim>\<open>R matrix is not invertible\<close>, raised at once with nothing retried and nothing returned;
  when \<open>R\<close> is invertible it returns a matrix.
\<close>

theorem VarianceCovarianceMatrix_panics_iff_R_singular:
  assumes "QR_R E (df_data (o_x ols)) = Inr R"
    and "wf R" and "Rows R = o_p ols" and "Cols R = o_p ols"
    and "case Inverse E R of Inl err \<Rightarrow> \<not> invertible R | Inr B \<Rightarrow> inverse_of R B"
  shows "(VarianceCovarianceMatrix E ols = Inl (PanicString ''R matrix is not invertible''))
           = (\<not> invertible R)
         \<and> (\<exists>M. VarianceCovarianceMatrix E ols = Inr M) = invertible R"
proof (cases "Inverse E R")
  case (Inl err)
  then have "\<not> invertible R" using assms(5) by simp
  moreover have "VarianceCovarianceMatrix E ols = Inl (PanicString ''R matrix is not invertible'')"
    using assms(1-4) Inl by (simp add: VarianceCovarianceMatrix_def Raug_of_square)
  ultimately show ?thesis by simp
next
  case (Inr B)
  then have B: "inverse_of R B" using assms(5) by simp
  then have inv: "invertible R" by (auto simp: invertible_def)
  have "VarianceCovarianceMatrix E ols = Inr (product B False B True)"
    using assms(1-4) Inr B
    by (simp add: VarianceCovarianceMatrix_def Raug_of_square MulTrans_def dims_T_def
        inverse_of_def)
  with inv show ?thesis by simp
qed

theorem VarianceCovarianceMatrix_singular_and_regular:
  "\<not> invertible Xsing
   \<and> VarianceCovarianceMatrix Esing ols_sing = Inl (PanicString ''R matrix is not invertible'')
   \<and> invertible I2
   \<and> (\<exists>M. VarianceCovarianceMatrix E32 ols32 = Inr M)"
proof -
  have s1: "QR_R Esing (df_data (o_x ols_sing)) = Inr Xsing" "wf Xsing"
    "Rows Xsing = o_p ols_sing" "Cols Xsing = o_p ols_sing"
    by (simp_all add: Esing_def env_of_def ols_sing_def Xsing_def wf_def)
  have s2: "case Inverse Esing Xsing of Inl err \<Rightarrow> \<not> invertible Xsing
              | Inr B \<Rightarrow> inverse_of Xsing B"
    using Xsing_not_invertible by (simp add: Esing_def env_of_def)
  have r1: "QR_R E32 (df_data (o_x ols32)) = Inr I2" "wf I2"
    "Rows I2 = o_p ols32" "Cols I2 = o_p ols32"
    by (simp_all add: E32_def env_of_def ols32_def I2_def wf_def)
  have r2: "case Inverse E32 I2 of Inl err \<Rightarrow> \<not> invertible I2 | Inr B \<Rightarrow> inverse_of I2 B"
    using I2_inverse_of_I2 by (simp add: E32_def env_of_def)
  have i: "invertible I2" using I2_inverse_of_I2 by (auto simp: invertible_def)
  from VarianceCovarianceMatrix_panics_iff_R_singular [OF s1 s2]
    VarianceCovarianceMatrix_panics_iff_R_singular [OF r1 r2]
    Xsing_not_invertible i
  show ?thesis by simp
qed

section \<open>The data after VarianceInflationFactors\<close>

text \<open>
  On the path that returns, \<^verbatim>\<open>VarianceInflationFactors\<close> resets the data to the copy it
  took, whatever the refits did to the model.
\<close>

lemma VIF_restores:
  assumes "fst (VarianceInflationFactors E ols) = Inr vifs"
  shows "df_data (o_x (snd (VarianceInflationFactors E ols))) = df_data (o_x ols)"
  using assms
  by (auto simp: VarianceInflationFactors_def split: prod.splits option.splits)

lemma train_spec_zero_column:
  assumes "int (length y) = o_n ols" and "0 < Cols (df_data (o_x ols))"
    and "list_all (\<lambda>v. v = 0) (column (df_data (o_x ols)) 0)"
  shows "\<exists>err. train_spec ols y = (Some err, ols)"
proof -
  have "list_ex (\<lambda>j. list_all (\<lambda>v. v = 0) (column (df_data (o_x ols)) j))
          [0..<Cols (df_data (o_x ols))]"
    using assms(2,3) by (auto simp: list_ex_iff)
  then show ?thesis by (simp add: train_spec_def)
qed

text \<open>
  C6. \<^verbatim>\<open>VarianceInflationFactors\<close> does not leave the data as it found them when a refit
  fails: the \<^verbatim>\<open>panic\<close> comes before the reset. With the refit of the specification, which
  refuses a design matrix with a column of zeros, this happens on every well-formed model
  with a predictor: the first refit, on the matrix whose column 0 has just been set to
  zero, fails, the method panics, and the data container is left with the zero column in
  place of the values it held.
\<close>

theorem VIF_failed_refit_leaves_zeroed_column:
  assumes "wf (df_data (o_x ols))"
    and "0 < o_p ols" and "o_p ols \<le> Cols (df_data (o_x ols))"
    and "o_n ols = int (Rows (df_data (o_x ols)))"
    and "OLS_Train E = train_spec" and "Rep E = (\<lambda>v k. replicate (nat k) v)"
    and "\<exists>v\<in>set (column (df_data (o_x ols)) 0). v \<noteq> 0"
  shows "fst (VarianceInflationFactors E ols) = Inl (PanicString ''Error Occured calculating VIF'')
         \<and> column (df_data (o_x (snd (VarianceInflationFactors E ols)))) 0
             = replicate (Rows (df_data (o_x ols))) 0
         \<and> df_data (o_x (snd (VarianceInflationFactors E ols))) \<noteq> df_data (o_x ols)"
proof -
  let ?d = "df_data (o_x ols)"
  let ?z = "replicate (Rows ?d) (0::real)"
  let ?d' = "?d\<lparr>Data := set_column 0 ?z (Data ?d)\<rparr>"
  let ?ols' = "ols\<lparr>o_x := (o_x ols)\<lparr>df_data := ?d'\<rparr>\<rparr>"
  have len: "length (Data ?d) = Rows ?d" and row: "\<forall>row\<in>set (Data ?d). length row = Cols ?d"
    using assms(1) by (auto simp: wf_def)
  have c0: "0 < Cols ?d" using assms(2,3) by simp
  have "\<forall>row\<in>set (Data ?d). 0 < length row" using row c0 by simp
  from set_column_same[OF this, of ?z]
  have col': "column ?d' 0 = ?z" by (simp add: column_def len)
  have "\<exists>err. train_spec ?ols' (column ?d 0) = (Some err, ?ols')"
    by (rule train_spec_zero_column)
       (use c0 col' assms(4) in \<open>simp_all add: column_def len list_all_iff\<close>)
  then obtain err where t: "train E ?ols' (column ?d 0) = (Some err, ?ols')"
    by (auto simp: train_def assms(5))
  have body: "vif_body E 0 (replicate (o_p ols) 0, ols)
      = (Some (PanicString ''Error Occured calculating VIF''), (replicate (o_p ols) 0, ?ols'))"
    using c0 t by (simp add: vif_body_def Col_def SetCol_def assms(4,6))
  have run: "VarianceInflationFactors E ols
      = (Inl (PanicString ''Error Occured calculating VIF''), ?ols')"
    unfolding VarianceInflationFactors_def for_each_st_upt_first[OF assms(2)] body by simp
  have "column ?d' 0 \<noteq> column ?d 0"
    using assms(7) col' by (metis in_set_replicate)
  then have "?d' \<noteq> ?d" by auto
  with run col' show ?thesis by simp
qed

theorem VIF_n3_p2_zeroed:
  "fst (VarianceInflationFactors E32_spec ols32)
     = Inl (PanicString ''Error Occured calculating VIF'')
   \<and> df_data (o_x (snd (VarianceInflationFactors E32_spec ols32)))
       = \<lparr>Rows = 3, Cols = 2, Data = [[0, 0], [0, 1], [0, 0]]\<rparr>
   \<and> df_data (o_x ols32) = \<lparr>Rows = 3, Cols = 2, Data = [[1, 0], [0, 1], [0, 0]]\<rparr>"
proof -
  have h: "wf (df_data (o_x ols32))" "0 < o_p ols32" "o_p ols32 \<le> Cols (df_data (o_x ols32))"
    "o_n ols32 = int (Rows (df_data (o_x ols32)))"
    "OLS_Train E32_spec = train_spec" "Rep E32_spec = (\<lambda>v k. replicate (nat k) v)"
    "\<exists>v\<in>set (column (df_data (o_x ols32)) 0). v \<noteq> 0"
    by (simp_all add: ols32_def X32_def wf_def E32_spec_def env_of_def column_def)
  have e: "VarianceInflationFactors E32_spec ols32 =
     (Inl (PanicString ''Error Occured calculating VIF''),
      ols32\<lparr>o_x := (o_x ols32)\<lparr>df_data := \<lparr>Rows = 3, Cols = 2, Data = [[0, 0], [0, 1], [0, 0]]\<rparr>\<rparr>\<rparr>)"
    by (simp add: VarianceInflationFactors_def vif_body_def E32_spec_def env_of_def ols32_def
        X32_def Col_def SetCol_def column_def set_column_def train_def train_spec_def
        upt_conv_Cons replicate_small)
  from VIF_failed_refit_leaves_zeroed_column [OF h] e
  show ?thesis by (simp add: ols32_def X32_def)
qed

section \<open>DFFITS and the size of the data\<close>





section \<open>Forward-stagewise training\<close>

lemma cors_loop_panics:
  assumes "0 < c"
  shows "for_each [0..<c] (cors_body h d yv) [] =
           Inl (if Cols d = 0 then PanicError ErrIndexOutOfRange else IndexOutOfRange)"
  unfolding for_each_upt_first[OF assms]
  by (simp add: cors_body_def Col_def store_def)

lemma round_body_panics:
  assumes "0 < df_cols (f_x f)"
  shows "round_body h y (f, x, r) =
     (Some (if Cols (df_data (f_x f)) = 0 then PanicError ErrIndexOutOfRange else IndexOutOfRange), (f, x, r))"
  by (simp add: round_body_def cors_loop_panics[OF assms])

lemma search_empty: "SearchFloat64s [] v = 0"
  by (simp add: SearchFloat64s_def)

lemma round_body_no_columns:
  assumes "df_cols (f_x f) = 0" "Cols x = 0"
  shows "round_body h y (f, x, r) = (Some (PanicError ErrIndexOutOfRange), (f, x, r))"
  using assms by (simp add: round_body_def search_empty Col_def SetCol_def)

lemma train_loop_first_round:
  assumes "0 < df_cols (f_x f)" "f_firstRun f"
  shows "train_loop h y (f, x, r) =
     Some (Inl (if Cols (df_data (f_x f)) = 0 then PanicError ErrIndexOutOfRange else IndexOutOfRange),
           f\<lparr>f_firstRun := False\<rparr>)"
  using assms
  by (subst train_loop.simps) (simp add: isCorrelation_def round_body_panics)

lemma train_loop_no_columns:
  assumes "df_cols (f_x f) = 0" "Cols x = 0" "f_firstRun f"
  shows "train_loop h y (f, x, r) = Some (Inl (PanicError ErrIndexOutOfRange), f\<lparr>f_firstRun := False\<rparr>)"
  using assms
  by (subst train_loop.simps) (simp add: isCorrelation_def round_body_no_columns)

lemma NewDense_of_Cols: "NewDense_of r c mat = Inr x \<Longrightarrow> Cols x = c"
  by (auto simp: NewDense_of_def NewDense_def split: if_splits)

lemma NewDense_of_panic: "NewDense_of r c mat = Inl e \<Longrightarrow> e = PanicError ErrShape"
  by (auto simp: NewDense_of_def NewDense_def split: if_splits)

lemma SetCol_dims: "SetCol d j v = Inr d' \<Longrightarrow> Rows d' = Rows d \<and> Cols d' = Cols d"
  by (auto simp: SetCol_def split: if_splits)

lemma standardize_body_returns:
  assumes "i < Cols d"
  shows "\<exists>col' d'. standardize_body h i (col, d) = Inr (col', d')
           \<and> Rows d' = Rows d \<and> Cols d' = Cols d"
  using assms by (simp add: standardize_body_def Col_into_def SetCol_def Let_def)

lemma standardize_loop:
  "k \<le> Cols d \<Longrightarrow> \<exists>col' d'. for_each [0..<k] (standardize_body h) (col, d) = Inr (col', d')
       \<and> Rows d' = Rows d \<and> Cols d' = Cols d"
proof (induction k)
  case 0
  then show ?case by simp
next
  case (Suc k)
  then obtain col' d' where *: "for_each [0..<k] (standardize_body h) (col, d) = Inr (col', d')"
     "Rows d' = Rows d" "Cols d' = Cols d" by auto
  have "k < Cols d'" using Suc.prems * by simp
  from standardize_body_returns[OF this, of h col'] * show ?case
    by (auto simp: for_each_append)
qed

lemma Standardize_returns:
  "\<exists>d'. Standardize h df = Inr (df\<lparr>df_data := d'\<rparr>) \<and> Rows d' = Rows (df_data df) \<and> Cols d' = Cols (df_data df)"
  using standardize_loop[of "Cols (df_data df)" "df_data df" h "replicate (Rows (df_data df)) 0"]
  by (auto simp: Standardize_def)

lemma Train_outcome:
  "\<exists>e f'. Train h f y = Some (Inl e, f')
       \<and> (e = IndexOutOfRange \<or> e = PanicError ErrIndexOutOfRange \<or> e = PanicError ErrShape)
       \<and> f_betas f' = h_rep h 0 (int (df_cols (f_x f)))"
proof -
  obtain d' where d: "Standardize h (f_x f) = Inr ((f_x f)\<lparr>df_data := d'\<rparr>)"
    using Standardize_returns by blast
  show ?thesis
  proof (cases "df_cols (f_x f) = 0")
    case True
    then show ?thesis
      unfolding Train_def d
      by (auto simp: train_loop_no_columns split: sum.splits
          dest: NewDense_of_Cols NewDense_of_panic)
  next
    case False
    then show ?thesis
      unfolding Train_def d
      by (auto simp: train_loop_first_round split: sum.splits dest: NewDense_of_panic)
  qed
qed

text \<open>
  C8. No round of \<^verbatim>\<open>Train\<close> does what the loop is written for. With at least one
  predictor column \<^verbatim>\<open>Train\<close> ends by a panic before its first round is over: the round
  stores a correlation at index 0 of a slice of length 0. No column has been selected, no
  coefficient updated (they are the zeros of the initialisation) and no residual
  replaced.
\<close>

theorem Train_panics_in_first_round:
  assumes "0 < df_cols (f_x f)"
  shows "\<exists>e f'. Train h f y = Some (Inl e, f')
           \<and> f_betas f' = h_rep h 0 (int (df_cols (f_x f)))"
  using Train_outcome [of h f y] by blast

theorem Train_one_predictor:
  "0 < df_cols (f_x fs21)
   \<and> Train H0 fs21 [1, 3] = Some (Inl IndexOutOfRange, fs21\<lparr>f_betas := [0]\<rparr>)"
proof -
  have c: "0 < df_cols (f_x fs21)" by (simp add: fs21_def)
  have "Train H0 fs21 [1, 3] = Some (Inl IndexOutOfRange, fs21\<lparr>f_betas := [0]\<rparr>)"
    using Train_panics_in_first_round [OF c, of H0 "[1, 3]"]
    apply (simp add: Train_def Standardize_def fs21_def H0_def standardize_body_def
        Col_into_def SetCol_def column_def set_column_def NewDense_of_def NewDense_def)
    apply (subst train_loop.simps)
    apply (simp add: isCorrelation_def round_body_def cors_body_def Col_def store_def
        column_def)
    done
  with c show ?thesis by simp
qed

subsection \<open>The exits of Train\<close>










section \<open>Transform\<close>

lemma fc_fold:
  "k \<le> length buf \<Longrightarrow>
   fold (\<lambda>i b. b[i := f (b ! i)]) [0..<k] buf = map f (take k buf) @ drop k buf"
proof (induction k)
  case 0
  then show ?case by simp
next
  case (Suc k)
  then have "k < length buf" by simp
  then show ?case
    using Suc
    by (simp add: take_Suc_conv_app_nth list_update_append nth_append
        upd_conv_take_nth_drop[symmetric] Cons_nth_drop_Suc[symmetric] min_def)
qed

lemma fc_map: "fc f buf = map f buf"
  by (simp add: fc_def fc_fold)

lemma transform_body_frame:
  assumes "transform_body f col df = (r, df')"
  shows "df_rows df' = df_rows df \<and> df_cols df' = df_cols df
         \<and> Rows (df_data df') = Rows (df_data df) \<and> Cols (df_data df') = Cols (df_data df)
         \<and> length (Data (df_data df')) = length (Data (df_data df))
         \<and> (\<forall>j. int j \<noteq> col \<longrightarrow> column (df_data df') j = column (df_data df) j)"
proof (cases "int (Cols (df_data df)) \<le> col \<or> col < 0")
  case True
  then show ?thesis
    using assms by (auto simp: transform_body_def Col_into_def)
next
  case False
  then have "df' = df\<lparr>df_data := (df_data df)\<lparr>Data :=
      set_column (nat col) (take (Rows (df_data df))
         (fc f (take (min (df_rows df) (Rows (df_data df))) (column (df_data df) (nat col))
                  @ drop (min (df_rows df) (Rows (df_data df))) (replicate (df_rows df) 0))))
        (Data (df_data df))\<rparr>\<rparr>"
    using assms by (auto simp: transform_body_def Col_into_def SetCol_def Let_def)
  moreover have "\<And>j. int j \<noteq> col \<Longrightarrow> nat col \<noteq> j"
    using False by auto
  ultimately show ?thesis
    by (simp add: column_def set_column_length set_column_other)
qed

lemma Transform_frame_gen:
  "df_rows (snd (Transform f cols df)) = df_rows df
   \<and> df_cols (snd (Transform f cols df)) = df_cols df
   \<and> Rows (df_data (snd (Transform f cols df))) = Rows (df_data df)
   \<and> Cols (df_data (snd (Transform f cols df))) = Cols (df_data df)
   \<and> length (Data (df_data (snd (Transform f cols df)))) = length (Data (df_data df))
   \<and> (\<forall>j. int j \<notin> set cols \<longrightarrow>
         column (df_data (snd (Transform f cols df))) j = column (df_data df) j)"
proof (induction cols arbitrary: df)
  case Nil
  then show ?case by (simp add: Transform_def)
next
  case (Cons c cs)
  obtain r df1 where b: "transform_body f c df = (r, df1)" by (cases "transform_body f c df")
  note fr = transform_body_frame[OF b]
  show ?case
  proof (cases r)
    case None
    then have "Transform f (c # cs) df = Transform f cs df1"
      using b by (simp add: Transform_def)
    then show ?thesis using Cons.IH[of df1] fr by simp
  next
    case (Some e)
    then have "Transform f (c # cs) df = (Some e, df1)"
      using b by (simp add: Transform_def)
    then show ?thesis using fr by simp
  qed
qed

lemma transform_body_column:
  assumes "wf_frame df" and "j < Cols (df_data df)"
  shows "\<exists>df'. transform_body f (int j) df = (None, df') \<and> wf_frame df'
           \<and> column (df_data df') j = map f (column (df_data df) j)"
proof -
  let ?d = "df_data df"
  have len: "length (Data ?d) = Rows ?d" and rows: "df_rows df = Rows ?d"
    and row: "\<forall>row\<in>set (Data ?d). length row = Cols ?d"
    using assms(1) by (auto simp: wf_frame_def wf_def)
  have lc: "length (column ?d j) = Rows ?d" by (simp add: column_def len)
  define df' where "df' = df\<lparr>df_data := ?d\<lparr>Data :=
      set_column j (map f (column ?d j)) (Data ?d)\<rparr>\<rparr>"
  have 1: "transform_body f (int j) df = (None, df')"
    using assms(2) lc
    by (simp add: transform_body_def Col_into_def SetCol_def rows fc_map df'_def)
  have 2: "wf_frame df'"
    using assms(1) set_column_wf[OF row, of j "map f (column ?d j)"]
    by (simp add: wf_frame_def wf_def df'_def set_column_length)
  have "\<forall>row\<in>set (Data ?d). j < length row" using row assms(2) by simp
  from set_column_same[OF this, of "map f (column ?d j)"]
  have 3: "column (df_data df') j = map f (column ?d j)"
    using lc by (simp add: df'_def column_def len)
  from 1 2 3 show ?thesis by blast
qed

lemma Transform_columns:
  assumes "wf_frame df" and "\<forall>c\<in>set cols. 0 \<le> c \<and> c < int (Cols (df_data df))"
  shows "fst (Transform f cols df) = None
         \<and> (\<forall>j. column (df_data (snd (Transform f cols df))) j
                  = map (f ^^ count_list cols (int j)) (column (df_data df) j))"
  using assms
proof (induction cols arbitrary: df)
  case Nil
  then show ?case by (simp add: Transform_def)
next
  case (Cons c cs)
  define k where "k = nat c"
  have k: "c = int k" "k < Cols (df_data df)"
    using Cons.prems(2) by (auto simp: k_def)
  from transform_body_column[OF Cons.prems(1) k(2), of f]
  obtain df1 where b: "transform_body f (int k) df = (None, df1)" and w: "wf_frame df1"
    and ck: "column (df_data df1) k = map f (column (df_data df) k)" by blast
  note fr = transform_body_frame[OF b]
  have T: "Transform f (c # cs) df = Transform f cs df1"
    using b k by (simp add: Transform_def)
  have "\<forall>c\<in>set cs. 0 \<le> c \<and> c < int (Cols (df_data df1))"
    using Cons.prems(2) fr by simp
  from Cons.IH[OF w this] have IH1: "fst (Transform f cs df1) = None"
    and IH2: "\<And>j. column (df_data (snd (Transform f cs df1))) j
                  = map (f ^^ count_list cs (int j)) (column (df_data df1) j)" by auto
  have "column (df_data (snd (Transform f cs df1))) j
          = map (f ^^ count_list (c # cs) (int j)) (column (df_data df) j)" for j
  proof (cases "j = k")
    case True
    then show ?thesis
      using IH2[of j] ck k by (simp add: comp_def funpow_swap1)
  next
    case False
    then have "column (df_data df1) j = column (df_data df) j" using fr by simp
    then show ?thesis using IH2[of j] False k by simp
  qed
  then show ?case using T IH1 by simp
qed

text \<open>
  C10. \<^verbatim>\<open>Transform(f, cols...)\<close> changes the listed columns only. Whatever the frame, the
  function and the list, and whether the call returns or panics on an index outside the
  matrix, the frame's \<open>rows\<close> and \<open>cols\<close> and the dimensions of its matrix are as before
  and every column whose index is not in the list holds the values it held. On a
  well-formed frame and a list of indices of its columns the call returns, and every
  column holds the values it held with \<open>f\<close> applied as many times as the list names the
  column: once for a column listed once, not at all for a column that is not listed.
\<close>

theorem Transform_changes_listed_columns_only:
  "df_rows (snd (Transform f cols df)) = df_rows df
   \<and> df_cols (snd (Transform f cols df)) = df_cols df
   \<and> Rows (df_data (snd (Transform f cols df))) = Rows (df_data df)
   \<and> Cols (df_data (snd (Transform f cols df))) = Cols (df_data df)
   \<and> (\<forall>j. int j \<notin> set cols \<longrightarrow>
         column (df_data (snd (Transform f cols df))) j = column (df_data df) j)
   \<and> (wf_frame df \<and> (\<forall>c\<in>set cols. 0 \<le> c \<and> c < int (Cols (df_data df))) \<longrightarrow>
         fst (Transform f cols df) = None
         \<and> (\<forall>j. column (df_data (snd (Transform f cols df))) j
                  = map (f ^^ count_list cols (int j)) (column (df_data df) j)))"
  using Transform_frame_gen [of f cols df] Transform_columns [of df cols f] by blast

theorem Transform_add1_a_c:
  "wf_frame df3
   \<and> fst (Transform add1 [0, 2] df3) = None
   \<and> column (df_data (snd (Transform add1 [0, 2] df3))) 0 = [2, 5, 8]
   \<and> column (df_data (snd (Transform add1 [0, 2] df3))) 1 = [2, 5, 8]
   \<and> column (df_data (snd (Transform add1 [0, 2] df3))) 2 = [4, 7, 10]
   \<and> df_rows (snd (Transform add1 [0, 2] df3)) = 3
   \<and> df_cols (snd (Transform add1 [0, 2] df3)) = 3"
proof -
  have w: "wf_frame df3" by (simp add: wf_frame_def wf_def df3_def)
  have c: "\<forall>c\<in>set [0, 2]. 0 \<le> c \<and> c < int (Cols (df_data df3))" by (simp add: df3_def)
  show ?thesis
    using w c Transform_changes_listed_columns_only [of add1 "[0, 2]" df3]
    by (simp add: df3_def column_def add1_def)
qed

end
